(* ===== verification/Prelude.thy ===== *)
theory Prelude
  imports Main "HOL-Library.Word" "HOL-Library.Sublist"
begin

text \<open>
  Shared vocabulary of the development. JavaScript strings are sequences of
  UTF-16 code units, so a string of the program is a list of \<open>16 word\<close>
  values (\<open>jstr\<close>); \<open>js\<close> turns an ASCII literal of HOL into such a string,
  for the concrete inputs of witnesses. The lemma collection \<open>handler_simps\<close>
  gathers the defining equations of the event handlers of all components, and
  the generic lemmas on keyed association lists below carry the refinement
  proofs of the task store (a list of records viewed as a map from a key field).
\<close>

type_synonym code_unit = "16 word"
type_synonym jstr = "code_unit list"

named_theorems handler_simps "defining equations of the React event handlers"

definition js :: "string \<Rightarrow> jstr" where
  "js s = map (\<lambda>c. of_nat (of_char c)) s"

definition keyed :: "('a \<Rightarrow> 'k) \<Rightarrow> 'a list \<Rightarrow> ('k \<times> 'a) list" where
  "keyed k xs = map (\<lambda>x. (k x, x)) xs"

lemma js_Nil [simp]: "js [] = []"
  by (simp add: js_def)

lemma js_Cons [simp]: "js (c # s) = of_nat (of_char c) # js s"
  by (simp add: js_def)

lemma js_append [simp]: "js (s @ t) = js s @ js t"
  by (simp add: js_def)

lemma length_js [simp]: "length (js s) = length s"
  by (simp add: js_def)

subsection \<open>Lists of records seen as maps from a key field\<close>

lemma keyed_simps [simp]:
  "keyed k [] = []"
  "keyed k (x # xs) = (k x, x) # keyed k xs"
  "keyed k (xs @ ys) = keyed k xs @ keyed k ys"
  by (simp_all add: keyed_def)

lemma map_of_keyed_Some:
  "map_of (keyed k xs) j = Some x \<Longrightarrow> k x = j \<and> x \<in> set xs"
  by (induction xs) (auto split: if_splits)

lemma map_of_keyed_None:
  "map_of (keyed k xs) j = None \<longleftrightarrow> j \<notin> k ` set xs"
  by (induction xs) auto

text \<open>A pointwise update that keeps every key maps the first entry of each key.\<close>

lemma map_of_keyed_map:
  assumes "\<And>x. k (f x) = k x"
  shows "map_of (keyed k (map f xs)) j = map_option f (map_of (keyed k xs) j)"
  using assms by (induction xs) auto

text \<open>A filter whose test reads only the key removes exactly the rejected keys.\<close>

lemma map_of_keyed_filter:
  assumes "\<And>x. P x = Q (k x)"
  shows "map_of (keyed k (filter P xs)) j = (if Q j then map_of (keyed k xs) j else None)"
  using assms by (induction xs) auto

lemma map_of_keyed_snoc_fresh:
  "j' \<notin> k ` set xs \<Longrightarrow> k x = j' \<Longrightarrow>
   map_of (keyed k (xs @ [x])) = (map_of (keyed k xs))(j' \<mapsto> x)"
proof (rule ext)
  fix y
  assume fresh: "j' \<notin> k ` set xs" and key: "k x = j'"
  show "map_of (keyed k (xs @ [x])) y = ((map_of (keyed k xs))(j' \<mapsto> x)) y"
  proof (cases "map_of (keyed k xs) y")
    case None
    then show ?thesis using key by (simp add: map_add_def)
  next
    case (Some z)
    then have "y \<in> k ` set xs" by (auto dest!: map_of_keyed_Some)
    with fresh have "y \<noteq> j'" by blast
    with Some show ?thesis by (simp add: map_add_def)
  qed
qed

lemma map_option_keyed_cond:
  "map_option (\<lambda>x. if k x = i then f x else x) (map_of (keyed k xs) j) =
   (if j = i then map_option f (map_of (keyed k xs) j) else map_of (keyed k xs) j)"
  by (cases "map_of (keyed k xs) j") (auto dest: map_of_keyed_Some)

subsection \<open>Pointwise conditional updates of a list\<close>

text \<open>
  The handlers of the program rewrite a list with
  \<^verbatim>\<open>xs.map(x => p(x) ? f(x) : x)\<close>; these facts are shared by all of them.
\<close>

lemma map_cond_keeps:
  assumes "\<And>x. g (f x) = g x"
  shows "map g (map (\<lambda>x. if P x then f x else x) xs) = map g xs"
  using assms by (induction xs) auto

lemma map_cond_involution:
  assumes "\<And>x. P x \<Longrightarrow> P (f x) \<and> f (f x) = x"
  shows "map (\<lambda>x. if P x then f x else x) (map (\<lambda>x. if P x then f x else x) xs) = xs"
  using assms by (induction xs) auto

end
