(* ===== verification/Types.thy ===== *)
theory Types
  imports Prelude
begin

text \<open>
  The data model of \<^verbatim>\<open>src/src/types.ts\<close>. The TypeScript union
  \<^verbatim>\<open>'low' | 'medium' | 'high'\<close> is the datatype \<open>priority\<close>, with
  \<open>priority_str\<close> giving the string the program stores and shows. The interface
  \<^verbatim>\<open>Task\<close> is the record \<open>task\<close> and \<^verbatim>\<open>EditingTask\<close> the record
  \<open>editing_task\<close>. The fields \<^verbatim>\<open>id\<close> and \<^verbatim>\<open>text\<close> clash with a HOL
  constant and an Isar keyword, so they carry the record's name as prefix.
\<close>

datatype priority = Low | Medium | High

fun priority_str :: "priority \<Rightarrow> jstr" where
  "priority_str Low = js ''low''"
| "priority_str Medium = js ''medium''"
| "priority_str High = js ''high''"

record task =
  task_id :: jstr
  task_text :: jstr
  completed :: bool
  priority :: priority

record editing_task =
  edit_id :: jstr
  edit_text :: jstr
  edit_priority :: priority

abbreviation task_ids :: "task list \<Rightarrow> jstr list" where
  "task_ids ts \<equiv> map task_id ts"

lemma priority_str_inj: "priority_str p = priority_str q \<longleftrightarrow> p = q"
  by (cases p; cases q) simp_all

end
