(* ===== verification/TaskStore.thy ===== *)
theory TaskStore
  imports Types
begin

text \<open>
  The task store: the four handlers of \<^verbatim>\<open>App\<close> in \<^verbatim>\<open>src/src/App.tsx\<close>
  (\<^verbatim>\<open>addTask\<close>, \<^verbatim>\<open>toggleTask\<close>, \<^verbatim>\<open>deleteTask\<close>, \<^verbatim>\<open>updateTask\<close>) and the
  two counters it renders. Each handler computes the array it passes to
  \<^verbatim>\<open>setTasks\<close>; here it is a function from the current list to the new one.
  \<^verbatim>\<open>crypto.randomUUID()\<close> is not a function of the state: the identifier it
  returned is a parameter of \<open>addTask\<close>, and whether it is fresh is a hypothesis
  of the lemmas that need it. The abstract view \<open>store_map\<close> sees the list as a
  map from identifiers to tasks (the first task of each identifier, as a lookup
  by \<^verbatim>\<open>find\<close> would), and each handler refines an operation on that map.
\<close>

definition addTask :: "task list \<Rightarrow> jstr \<Rightarrow> jstr \<Rightarrow> priority \<Rightarrow> task list" where
  "addTask tasks uuid text prio =
     tasks @ [\<lparr>task_id = uuid, task_text = text, completed = False, priority = prio\<rparr>]"

definition toggleTask :: "task list \<Rightarrow> jstr \<Rightarrow> task list" where
  "toggleTask tasks i =
     map (\<lambda>t. if task_id t = i then t\<lparr>completed := \<not> completed t\<rparr> else t) tasks"

definition deleteTask :: "task list \<Rightarrow> jstr \<Rightarrow> task list" where
  "deleteTask tasks i = filter (\<lambda>t. task_id t \<noteq> i) tasks"

definition updateTask :: "task list \<Rightarrow> jstr \<Rightarrow> jstr \<Rightarrow> priority \<Rightarrow> task list" where
  "updateTask tasks i text prio =
     map (\<lambda>t. if task_id t = i then t\<lparr>task_text := text, priority := prio\<rparr> else t) tasks"

definition activeTasks :: "task list \<Rightarrow> nat" where
  "activeTasks tasks = length (filter (\<lambda>t. \<not> completed t) tasks)"

definition completedTasks :: "task list \<Rightarrow> nat" where
  "completedTasks tasks = length (filter completed tasks)"

text \<open>
  The callbacks \<^verbatim>\<open>App\<close> hands to its children (\<^verbatim>\<open>onAddTask\<close>,
  \<^verbatim>\<open>onToggleTask\<close>, \<^verbatim>\<open>onDeleteTask\<close>, \<^verbatim>\<open>onUpdateTask\<close>): a child's
  handler returns the call it makes, and \<open>dispatch\<close> is the wiring of the props
  to the four handlers. The UUID is the value \<^verbatim>\<open>crypto.randomUUID()\<close> returns
  when the add handler runs.
\<close>

datatype store_call =
    AddTask jstr priority
  | ToggleTask jstr
  | DeleteTask jstr
  | UpdateTask jstr jstr priority

fun dispatch :: "task list \<Rightarrow> jstr \<Rightarrow> store_call \<Rightarrow> task list" where
  "dispatch tasks uuid (AddTask text prio) = addTask tasks uuid text prio"
| "dispatch tasks uuid (ToggleTask i) = toggleTask tasks i"
| "dispatch tasks uuid (DeleteTask i) = deleteTask tasks i"
| "dispatch tasks uuid (UpdateTask i text prio) = updateTask tasks i text prio"

declare addTask_def [handler_simps] toggleTask_def [handler_simps]
  deleteTask_def [handler_simps] updateTask_def [handler_simps]

subsection \<open>Well-formedness and the abstract view\<close>

definition store_wf :: "task list \<Rightarrow> bool" where
  "store_wf tasks \<longleftrightarrow> distinct (task_ids tasks)"

definition store_map :: "task list \<Rightarrow> jstr \<rightharpoonup> task" where
  "store_map tasks = map_of (keyed task_id tasks)"

definition new_task :: "jstr \<Rightarrow> jstr \<Rightarrow> priority \<Rightarrow> task" where
  "new_task uuid text prio = \<lparr>task_id = uuid, task_text = text, completed = False, priority = prio\<rparr>"

definition abs_toggle :: "(jstr \<rightharpoonup> task) \<Rightarrow> jstr \<Rightarrow> (jstr \<rightharpoonup> task)" where
  "abs_toggle m i = m(i := map_option (\<lambda>t. t\<lparr>completed := \<not> completed t\<rparr>) (m i))"

definition abs_update :: "(jstr \<rightharpoonup> task) \<Rightarrow> jstr \<Rightarrow> jstr \<Rightarrow> priority \<Rightarrow> (jstr \<rightharpoonup> task)" where
  "abs_update m i text prio = m(i := map_option (\<lambda>t. t\<lparr>task_text := text, priority := prio\<rparr>) (m i))"

subsection \<open>Shared facts of the handlers\<close>

lemma addTask_new_task: "addTask tasks uuid text prio = tasks @ [new_task uuid text prio]"
  by (simp add: addTask_def new_task_def)

lemma task_ids_toggleTask [simp]: "task_ids (toggleTask tasks i) = task_ids tasks"
  by (simp add: toggleTask_def map_cond_keeps)

lemma task_ids_updateTask [simp]: "task_ids (updateTask tasks i text prio) = task_ids tasks"
  by (simp add: updateTask_def map_cond_keeps)

lemma length_toggleTask [simp]: "length (toggleTask tasks i) = length tasks"
  by (simp add: toggleTask_def)

lemma length_updateTask [simp]: "length (updateTask tasks i text prio) = length tasks"
  by (simp add: updateTask_def)

lemma set_task_ids_deleteTask [simp]:
  "set (task_ids (deleteTask tasks i)) = set (task_ids tasks) - {i}"
  by (auto simp: deleteTask_def)

lemma store_wf_toggleTask [simp]: "store_wf (toggleTask tasks i) = store_wf tasks"
  by (simp add: store_wf_def)

lemma store_wf_updateTask [simp]: "store_wf (updateTask tasks i text prio) = store_wf tasks"
  by (simp add: store_wf_def)

lemma store_wf_deleteTask: "store_wf tasks \<Longrightarrow> store_wf (deleteTask tasks i)"
  by (simp add: store_wf_def deleteTask_def distinct_map_filter)

lemma store_wf_addTask:
  "store_wf tasks \<Longrightarrow> uuid \<notin> set (task_ids tasks) \<Longrightarrow> store_wf (addTask tasks uuid text prio)"
  by (simp add: store_wf_def addTask_def)

lemmas store_wf_preserved = store_wf_toggleTask store_wf_updateTask
  store_wf_deleteTask store_wf_addTask

lemma store_wf_dispatch:
  "store_wf tasks \<Longrightarrow> uuid \<notin> set (task_ids tasks) \<Longrightarrow> store_wf (dispatch tasks uuid c)"
  by (cases c) (simp_all add: store_wf_preserved)

lemma set_task_ids_dispatch:
  "set (task_ids (dispatch tasks uuid c)) =
     (case c of AddTask _ _ \<Rightarrow> insert uuid (set (task_ids tasks))
      | DeleteTask i \<Rightarrow> set (task_ids tasks) - {i}
      | _ \<Rightarrow> set (task_ids tasks))"
  by (cases c) (auto simp: addTask_def deleteTask_def)

lemma toggleTask_absent: "i \<notin> set (task_ids tasks) \<Longrightarrow> toggleTask tasks i = tasks"
  by (induction tasks) (auto simp: toggleTask_def)

lemma updateTask_absent: "i \<notin> set (task_ids tasks) \<Longrightarrow> updateTask tasks i text prio = tasks"
  by (induction tasks) (auto simp: updateTask_def)

lemma deleteTask_absent: "i \<notin> set (task_ids tasks) \<Longrightarrow> deleteTask tasks i = tasks"
  by (induction tasks) (auto simp: deleteTask_def)

lemma distinct_ids_split:
  assumes "store_wf tasks" and "j < length tasks"
  shows "task_id (tasks ! j) \<notin> set (task_ids (take j tasks))"
    and "task_id (tasks ! j) \<notin> set (task_ids (drop (Suc j) tasks))"
proof -
  have split: "tasks = take j tasks @ tasks ! j # drop (Suc j) tasks"
    using assms(2) by (rule id_take_nth_drop)
  have "distinct (task_ids (take j tasks @ tasks ! j # drop (Suc j) tasks))"
    using assms(1) split by (simp add: store_wf_def)
  then show "task_id (tasks ! j) \<notin> set (task_ids (take j tasks))"
    and "task_id (tasks ! j) \<notin> set (task_ids (drop (Suc j) tasks))"
    by auto
qed

lemma toggleTask_at:
  assumes "store_wf tasks" and "j < length tasks"
  shows "toggleTask tasks (task_id (tasks ! j)) =
           take j tasks @ (tasks ! j)\<lparr>completed := \<not> completed (tasks ! j)\<rparr> # drop (Suc j) tasks"
proof -
  note fresh = distinct_ids_split [OF assms]
  have split: "tasks = take j tasks @ tasks ! j # drop (Suc j) tasks"
    using assms(2) by (rule id_take_nth_drop)
  have "toggleTask (take j tasks @ tasks ! j # drop (Suc j) tasks) (task_id (tasks ! j))
      = take j tasks @ (tasks ! j)\<lparr>completed := \<not> completed (tasks ! j)\<rparr> # drop (Suc j) tasks"
    using fresh toggleTask_absent [unfolded toggleTask_def] by (simp add: toggleTask_def)
  then show ?thesis using split by simp
qed

subsection \<open>Properties of the task store\<close>

text \<open>
  C1. Adding a task with a fresh identifier appends exactly one task at the end,
  not completed, with the given text and priority, and keeps the identifiers of the
  list distinct.
\<close>

theorem addTask_spec:
  assumes "store_wf tasks" and "uuid \<notin> set (task_ids tasks)"
  shows "store_wf (addTask tasks uuid text prio)
    \<and> length (addTask tasks uuid text prio) = Suc (length tasks)
    \<and> take (length tasks) (addTask tasks uuid text prio) = tasks
    \<and> \<not> completed (last (addTask tasks uuid text prio))
    \<and> task_text (last (addTask tasks uuid text prio)) = text
    \<and> priority (last (addTask tasks uuid text prio)) = prio
    \<and> task_id (last (addTask tasks uuid text prio)) \<notin> set (task_ids tasks)"
  using assms by (simp add: addTask_def store_wf_def)

theorem addTask_spec_witness:
  "store_wf [\<lparr>task_id = js ''a'', task_text = js ''Buy milk'', completed = True, priority = Low\<rparr>]
   \<and> js ''b'' \<notin> set (task_ids [\<lparr>task_id = js ''a'', task_text = js ''Buy milk'', completed = True, priority = Low\<rparr>])
   \<and> length (addTask [\<lparr>task_id = js ''a'', task_text = js ''Buy milk'', completed = True, priority = Low\<rparr>]
        (js ''b'') (js ''Call Alice'') High) = 2"
proof -
  have wf: "store_wf [\<lparr>task_id = js ''a'', task_text = js ''Buy milk'', completed = True, priority = Low\<rparr>]"
    by (simp add: store_wf_def)
  have fresh: "js ''b'' \<notin> set (task_ids [\<lparr>task_id = js ''a'', task_text = js ''Buy milk'', completed = True, priority = Low\<rparr>])"
    by simp
  show ?thesis using addTask_spec [OF wf fresh, of "js ''Call Alice''" High] wf fresh by simp
qed

text \<open>
  C2. Toggling flips the completion flag of exactly the tasks with that identifier,
  position by position, and leaves every other task as it is; toggling the same
  identifier again gives back the original list.
\<close>

theorem toggleTask_frame:
  assumes "k < length tasks"
  shows "length (toggleTask tasks i) = length tasks
    \<and> toggleTask tasks i ! k =
        (if task_id (tasks ! k) = i then (tasks ! k)\<lparr>completed := \<not> completed (tasks ! k)\<rparr> else tasks ! k)
    \<and> toggleTask (toggleTask tasks i) i = tasks"
proof -
  have "toggleTask (toggleTask tasks i) i = tasks"
    unfolding toggleTask_def by (rule map_cond_involution) simp
  then show ?thesis using assms by (simp add: toggleTask_def)
qed

theorem toggleTask_frame_witness:
  "(1::nat) < length [\<lparr>task_id = js ''a'', task_text = js ''x'', completed = False, priority = Low\<rparr>,
                     \<lparr>task_id = js ''b'', task_text = js ''y'', completed = True, priority = High\<rparr>]
   \<and> toggleTask [\<lparr>task_id = js ''a'', task_text = js ''x'', completed = False, priority = Low\<rparr>,
                  \<lparr>task_id = js ''b'', task_text = js ''y'', completed = True, priority = High\<rparr>] (js ''b'') ! 1
     = \<lparr>task_id = js ''b'', task_text = js ''y'', completed = False, priority = High\<rparr>"
  using toggleTask_frame [of 1 "[\<lparr>task_id = js ''a'', task_text = js ''x'', completed = False, priority = Low\<rparr>,
      \<lparr>task_id = js ''b'', task_text = js ''y'', completed = True, priority = High\<rparr>]" "js ''b''"]
  by simp

text \<open>
  C3. Updating a task changes only the text and priority of the tasks with that
  identifier: every position keeps its identifier and completion flag, and the
  other tasks are unchanged.
\<close>

theorem updateTask_frame:
  assumes "k < length tasks"
  shows "task_id (updateTask tasks i text prio ! k) = task_id (tasks ! k)
    \<and> completed (updateTask tasks i text prio ! k) = completed (tasks ! k)
    \<and> (if task_id (tasks ! k) = i
       then task_text (updateTask tasks i text prio ! k) = text
         \<and> priority (updateTask tasks i text prio ! k) = prio
       else updateTask tasks i text prio ! k = tasks ! k)"
  using assms by (simp add: updateTask_def)

theorem updateTask_frame_witness:
  "(0::nat) < length [\<lparr>task_id = js ''a'', task_text = js ''x'', completed = True, priority = Low\<rparr>]
   \<and> task_text (updateTask [\<lparr>task_id = js ''a'', task_text = js ''x'', completed = True, priority = Low\<rparr>]
        (js ''a'') (js ''y'') High ! 0) = js ''y''
   \<and> completed (updateTask [\<lparr>task_id = js ''a'', task_text = js ''x'', completed = True, priority = Low\<rparr>]
        (js ''a'') (js ''y'') High ! 0)"
  using updateTask_frame [of 0 "[\<lparr>task_id = js ''a'', task_text = js ''x'', completed = True, priority = Low\<rparr>]"
      "js ''a''" "js ''y''" High]
  by simp

text \<open>
  C4. Deleting the identifier of the task at position \<open>j\<close> of a well-formed list
  removes exactly that task and keeps all others in their order.
\<close>

theorem deleteTask_removes_one:
  assumes "store_wf tasks" and "j < length tasks"
  shows "deleteTask tasks (task_id (tasks ! j)) = take j tasks @ drop (Suc j) tasks"
proof -
  note fresh = distinct_ids_split [OF assms]
  have split: "tasks = take j tasks @ tasks ! j # drop (Suc j) tasks"
    using assms(2) by (rule id_take_nth_drop)
  have "deleteTask (take j tasks @ tasks ! j # drop (Suc j) tasks) (task_id (tasks ! j))
      = take j tasks @ drop (Suc j) tasks"
    using fresh deleteTask_absent [unfolded deleteTask_def] by (simp add: deleteTask_def)
  then show ?thesis using split by simp
qed

theorem deleteTask_removes_one_witness:
  "store_wf [\<lparr>task_id = js ''a'', task_text = js ''x'', completed = False, priority = Low\<rparr>,
             \<lparr>task_id = js ''b'', task_text = js ''y'', completed = True, priority = High\<rparr>,
             \<lparr>task_id = js ''c'', task_text = js ''z'', completed = False, priority = Medium\<rparr>]
   \<and> deleteTask [\<lparr>task_id = js ''a'', task_text = js ''x'', completed = False, priority = Low\<rparr>,
             \<lparr>task_id = js ''b'', task_text = js ''y'', completed = True, priority = High\<rparr>,
             \<lparr>task_id = js ''c'', task_text = js ''z'', completed = False, priority = Medium\<rparr>] (js ''b'')
     = [\<lparr>task_id = js ''a'', task_text = js ''x'', completed = False, priority = Low\<rparr>,
        \<lparr>task_id = js ''c'', task_text = js ''z'', completed = False, priority = Medium\<rparr>]"
proof -
  have wf: "store_wf [\<lparr>task_id = js ''a'', task_text = js ''x'', completed = False, priority = Low\<rparr>,
             \<lparr>task_id = js ''b'', task_text = js ''y'', completed = True, priority = High\<rparr>,
             \<lparr>task_id = js ''c'', task_text = js ''z'', completed = False, priority = Medium\<rparr>]"
    by (simp add: store_wf_def)
  show ?thesis using wf deleteTask_removes_one [OF wf, of 1] by simp
qed

text \<open>
  C17. A toggle, update or delete naming an identifier that is not in the list leaves
  the list as it is: the error is silently ignored.
\<close>

theorem absent_id_noop:
  assumes "i \<notin> set (task_ids tasks)"
  shows "dispatch tasks u (ToggleTask i) = tasks \<and> dispatch tasks u (DeleteTask i) = tasks
    \<and> dispatch tasks u (UpdateTask i text prio) = tasks"
  using assms by (simp add: toggleTask_absent deleteTask_absent updateTask_absent)

theorem absent_id_noop_witness:
  "js ''zz'' \<notin> set (task_ids [\<lparr>task_id = js ''a'', task_text = js ''x'', completed = False, priority = Low\<rparr>])
   \<and> dispatch [\<lparr>task_id = js ''a'', task_text = js ''x'', completed = False, priority = Low\<rparr>] [] (DeleteTask (js ''zz''))
     = [\<lparr>task_id = js ''a'', task_text = js ''x'', completed = False, priority = Low\<rparr>]"
  using absent_id_noop [of "js ''zz''" "[\<lparr>task_id = js ''a'', task_text = js ''x'', completed = False, priority = Low\<rparr>]" "[]"
      "js ''y''" High]
  by simp

text \<open>
  C21. Seen as a map from identifiers to tasks, toggling flips the completion flag of
  the task under that identifier and nothing else (a functional refinement of the
  abstract operation \<open>abs_toggle\<close>).
\<close>

theorem toggleTask_refines: "store_map (toggleTask tasks i) = abs_toggle (store_map tasks) i"
proof (rule ext)
  fix j
  show "store_map (toggleTask tasks i) j = abs_toggle (store_map tasks) i j"
    by (simp add: store_map_def abs_toggle_def toggleTask_def map_of_keyed_map map_option_keyed_cond)
qed

text \<open>C22. Updating refines \<open>abs_update\<close> on the map view.\<close>

theorem updateTask_refines:
  "store_map (updateTask tasks i text prio) = abs_update (store_map tasks) i text prio"
proof (rule ext)
  fix j
  show "store_map (updateTask tasks i text prio) j = abs_update (store_map tasks) i text prio j"
    by (simp add: store_map_def abs_update_def updateTask_def map_of_keyed_map map_option_keyed_cond)
qed

text \<open>C23. Deleting removes the identifier from the map view and nothing else.\<close>

theorem deleteTask_refines: "store_map (deleteTask tasks i) = (store_map tasks)(i := None)"
  by (rule ext) (simp add: store_map_def deleteTask_def map_of_keyed_filter)

text \<open>
  C24. Adding with a fresh identifier adds exactly one entry, the new task, to the map
  view.
\<close>

theorem addTask_refines:
  assumes "uuid \<notin> set (task_ids tasks)"
  shows "store_map (addTask tasks uuid text prio) = (store_map tasks)(uuid \<mapsto> new_task uuid text prio)"
  unfolding store_map_def addTask_new_task
  using assms by (intro map_of_keyed_snoc_fresh) (auto simp: new_task_def)

theorem addTask_refines_witness:
  "js ''b'' \<notin> set (task_ids [\<lparr>task_id = js ''a'', task_text = js ''x'', completed = False, priority = Low\<rparr>])
   \<and> store_map (addTask [\<lparr>task_id = js ''a'', task_text = js ''x'', completed = False, priority = Low\<rparr>]
        (js ''b'') (js ''y'') High) (js ''b'') = Some (new_task (js ''b'') (js ''y'') High)"
  using addTask_refines [of "js ''b''" "[\<lparr>task_id = js ''a'', task_text = js ''x'', completed = False, priority = Low\<rparr>]"
      "js ''y''" High]
  by simp

text \<open>
  C25. Toggling a task of a list with distinct identifiers moves it from one counter
  to the other: an active task leaves ``tasks remaining'' and joins ``tasks
  completed'', a completed one goes back.
\<close>

theorem counters_toggle:
  assumes "store_wf tasks" and "j < length tasks"
  shows "activeTasks (toggleTask tasks (task_id (tasks ! j))) =
           (if completed (tasks ! j) then Suc (activeTasks tasks) else activeTasks tasks - 1)
    \<and> completedTasks (toggleTask tasks (task_id (tasks ! j))) =
           (if completed (tasks ! j) then completedTasks tasks - 1 else Suc (completedTasks tasks))"
proof -
  have split: "tasks = take j tasks @ tasks ! j # drop (Suc j) tasks"
    using assms(2) by (rule id_take_nth_drop)
  have "activeTasks tasks = activeTasks (take j tasks @ tasks ! j # drop (Suc j) tasks)"
    and "completedTasks tasks = completedTasks (take j tasks @ tasks ! j # drop (Suc j) tasks)"
    using split by simp_all
  then show ?thesis
    by (simp add: toggleTask_at [OF assms] activeTasks_def completedTasks_def)
qed

theorem counters_toggle_witness:
  "store_wf [\<lparr>task_id = js ''a'', task_text = js ''x'', completed = False, priority = Low\<rparr>,
             \<lparr>task_id = js ''b'', task_text = js ''y'', completed = True, priority = High\<rparr>]
   \<and> (0::nat) < length [\<lparr>task_id = js ''a'', task_text = js ''x'', completed = False, priority = Low\<rparr>,
             \<lparr>task_id = js ''b'', task_text = js ''y'', completed = True, priority = High\<rparr>]
   \<and> activeTasks (toggleTask [\<lparr>task_id = js ''a'', task_text = js ''x'', completed = False, priority = Low\<rparr>,
             \<lparr>task_id = js ''b'', task_text = js ''y'', completed = True, priority = High\<rparr>] (js ''a'')) = 0
   \<and> completedTasks (toggleTask [\<lparr>task_id = js ''a'', task_text = js ''x'', completed = False, priority = Low\<rparr>,
             \<lparr>task_id = js ''b'', task_text = js ''y'', completed = True, priority = High\<rparr>] (js ''a'')) = 2"
proof -
  have wf: "store_wf [\<lparr>task_id = js ''a'', task_text = js ''x'', completed = False, priority = Low\<rparr>,
             \<lparr>task_id = js ''b'', task_text = js ''y'', completed = True, priority = High\<rparr>]"
    by (simp add: store_wf_def)
  have j: "(0::nat) < length [\<lparr>task_id = js ''a'', task_text = js ''x'', completed = False, priority = Low\<rparr>,
             \<lparr>task_id = js ''b'', task_text = js ''y'', completed = True, priority = High\<rparr>]"
    by simp
  show ?thesis using wf j counters_toggle [OF wf j]
    by (simp add: activeTasks_def completedTasks_def)
qed

end
