(* ===== verification/JsString.thy ===== *)
theory JsString
  imports Prelude
begin

text \<open>
  The JavaScript string operations the components call. \<^verbatim>\<open>String.prototype.trim\<close>
  is a built-in of the language, modelled from ECMAScript's TrimString: it removes the
  leading and trailing code units that are WhiteSpace or LineTerminator. The
  WhiteSpace set is TAB, VT, FF, SP, NBSP, ZWNBSP (U+FEFF) and the space separators
  of Unicode category Zs; LineTerminator is LF, CR, LS and PS. A string is truthy
  in a condition exactly when it is not empty, so \<^verbatim>\<open>if (s.trim())\<close> is
  \<open>trim s \<noteq> []\<close>.
\<close>

definition js_whitespace :: "code_unit \<Rightarrow> bool" where
  "js_whitespace c \<longleftrightarrow>
     c = 0x09 \<or> c = 0x0B \<or> c = 0x0C \<or> c = 0x20 \<or> c = 0xA0 \<or> c = 0xFEFF
     \<or> c = 0x1680 \<or> (0x2000 \<le> c \<and> c \<le> 0x200A) \<or> c = 0x202F \<or> c = 0x205F
     \<or> c = 0x3000
     \<or> c = 0x0A \<or> c = 0x0D \<or> c = 0x2028 \<or> c = 0x2029"

definition trim :: "jstr \<Rightarrow> jstr" where
  "trim s = rev (dropWhile js_whitespace (rev (dropWhile js_whitespace s)))"

definition blank :: "jstr \<Rightarrow> bool" where
  "blank s \<longleftrightarrow> list_all js_whitespace s"

lemma dropWhile_eq_Nil_all: "dropWhile P xs = [] \<longleftrightarrow> (\<forall>x\<in>set xs. P x)"
  by (induction xs) auto

text \<open>The trimmed string is empty exactly when every code unit is white space.\<close>

lemma trim_Nil_iff [simp]: "trim s = [] \<longleftrightarrow> blank s"
proof -
  have "trim s = [] \<longleftrightarrow> dropWhile js_whitespace (rev (dropWhile js_whitespace s)) = []"
    by (simp add: trim_def)
  also have "\<dots> \<longleftrightarrow> (\<forall>x\<in>set (dropWhile js_whitespace s). js_whitespace x)"
    by (simp add: dropWhile_eq_Nil_all)
  also have "\<dots> \<longleftrightarrow> dropWhile js_whitespace s = []"
  proof
    assume all: "\<forall>x\<in>set (dropWhile js_whitespace s). js_whitespace x"
    show "dropWhile js_whitespace s = []"
    proof (cases "dropWhile js_whitespace s")
      case (Cons y ys)
      then have "\<not> js_whitespace y" using hd_dropWhile [of js_whitespace s] by simp
      with all Cons show ?thesis by simp
    qed
  qed (auto dest: set_dropWhileD)
  also have "\<dots> \<longleftrightarrow> blank s"
    by (simp add: dropWhile_eq_Nil_all blank_def list_all_iff)
  finally show ?thesis .
qed

lemma blank_js_Nil [simp]: "blank []"
  by (simp add: blank_def)

lemma blank_Cons [simp]: "blank (c # s) \<longleftrightarrow> js_whitespace c \<and> blank s"
  by (simp add: blank_def)

lemma blank_append [simp]: "blank (s @ t) \<longleftrightarrow> blank s \<and> blank t"
  by (simp add: blank_def)

text \<open>Trimming only removes code units: the result is a contiguous piece of the input.\<close>

lemma trim_infix: "sublist (trim s) s"
proof -
  have "suffix (dropWhile js_whitespace s) s"
    by (metis suffix_def takeWhile_dropWhile_id)
  moreover have "prefix (rev (dropWhile js_whitespace (rev (dropWhile js_whitespace s))))
                   (dropWhile js_whitespace s)"
    by (metis prefix_def rev_append rev_rev_ident takeWhile_dropWhile_id)
  ultimately show ?thesis
    unfolding trim_def by (meson prefix_imp_sublist sublist_order.order_trans suffix_imp_sublist)
qed

end
