(* ===== verification/TaskInput.thy ===== *)
theory TaskInput
  imports TaskStore JsString
begin

text \<open>
  The form of \<^verbatim>\<open>src/src/components/TaskInput.tsx\<close>. Its two pieces of React
  state, \<^verbatim>\<open>task\<close> and \<^verbatim>\<open>priority\<close>, are the record \<open>input_state\<close>
  (initially the empty string and \<^verbatim>\<open>'medium'\<close>). The \<^verbatim>\<open>onChange\<close> handlers of
  the text field and of the select overwrite one field each. \<open>handleSubmit\<close>
  returns the new form state and the call it makes to \<^verbatim>\<open>onAddTask\<close>, if any:
  when the trimmed text is not empty it passes the raw text and the selected
  priority, then clears the text and keeps the priority; otherwise nothing happens.
  \<^verbatim>\<open>e.preventDefault()\<close> only stops the browser's page reload.
\<close>

record input_state =
  input_task :: jstr
  input_priority :: priority

definition taskInput_init :: input_state where
  "taskInput_init = \<lparr>input_task = [], input_priority = Medium\<rparr>"

definition setTask_input :: "input_state \<Rightarrow> jstr \<Rightarrow> input_state" where
  "setTask_input s v = s\<lparr>input_task := v\<rparr>"

definition setPriority_input :: "input_state \<Rightarrow> priority \<Rightarrow> input_state" where
  "setPriority_input s p = s\<lparr>input_priority := p\<rparr>"

definition handleSubmit :: "input_state \<Rightarrow> input_state \<times> store_call option" where
  "handleSubmit s =
     (if trim (input_task s) \<noteq> []
      then (s\<lparr>input_task := []\<rparr>, Some (AddTask (input_task s) (input_priority s)))
      else (s, None))"

declare handleSubmit_def [handler_simps]

subsection \<open>Properties of the form\<close>

text \<open>
  C9. Submitting text that is empty or made only of white space changes neither
  the form nor the task list: no call is made.
\<close>

theorem handleSubmit_blank:
  assumes "blank (input_task s)"
  shows "handleSubmit s = (s, None)"
  using assms by (simp add: handleSubmit_def)

theorem handleSubmit_blank_witness:
  "blank (js ''  '') \<and>
   handleSubmit \<lparr>input_task = js ''  '', input_priority = High\<rparr>
     = (\<lparr>input_task = js ''  '', input_priority = High\<rparr>, None)"
proof -
  have b: "blank (js ''  '')" by (simp add: js_whitespace_def)
  show ?thesis using b handleSubmit_blank [of "\<lparr>input_task = js ''  '', input_priority = High\<rparr>"] by simp
qed

text \<open>
  C10. Submitting text with a non-white-space code unit calls \<^verbatim>\<open>onAddTask\<close>
  with the untrimmed text and the selected priority, clears the text and keeps the
  priority.
\<close>

theorem handleSubmit_nonblank:
  assumes "\<not> blank (input_task s)"
  shows "handleSubmit s =
    (\<lparr>input_task = [], input_priority = input_priority s\<rparr>,
     Some (AddTask (input_task s) (input_priority s)))"
  using assms by (simp add: handleSubmit_def)

theorem handleSubmit_nonblank_witness:
  "\<not> blank (js '' Buy milk '') \<and>
   handleSubmit \<lparr>input_task = js '' Buy milk '', input_priority = Low\<rparr>
     = (\<lparr>input_task = [], input_priority = Low\<rparr>, Some (AddTask (js '' Buy milk '') Low))"
proof -
  have b: "\<not> blank (js '' Buy milk '')" by (simp add: js_whitespace_def)
  show ?thesis using b handleSubmit_nonblank [of "\<lparr>input_task = js '' Buy milk '', input_priority = Low\<rparr>"]
    by simp
qed

end
