(* ===== verification/TaskList.thy ===== *)
theory TaskList
  imports TaskStore JsString
begin

text \<open>
  The list view of \<^verbatim>\<open>src/src/components/TaskList.tsx\<close>. Its one piece of
  state, \<^verbatim>\<open>editingTask: EditingTask | null\<close>, is an \<open>editing_task option\<close>;
  a row is in edit mode when \<^verbatim>\<open>editingTask?.id === task.id\<close> (\<open>row_editing\<close>).
  A row in view mode renders the toggle, edit and delete buttons; a row in edit
  mode renders the text field, the priority select and the save and cancel
  buttons. The user's interactions with the rendered rows are \<open>list_event\<close>s, a
  row button naming its row by position; \<open>list_enabled\<close> says which of them the
  rendered page offers, and \<open>taskList_step\<close> runs the handler, returning the new
  \<^verbatim>\<open>editingTask\<close> and the call it makes to the store, if any.
  \<open>getPriorityColor\<close> is the class chooser of the priority badge.
\<close>

definition getPriorityColor :: "jstr \<Rightarrow> jstr" where
  "getPriorityColor p =
     (if p = js ''high'' then js ''bg-red-100 dark:bg-red-900 text-red-800 dark:text-red-200''
      else if p = js ''medium'' then js ''bg-yellow-100 dark:bg-yellow-900 text-yellow-800 dark:text-yellow-200''
      else if p = js ''low'' then js ''bg-green-100 dark:bg-green-900 text-green-800 dark:text-green-200''
      else js ''bg-gray-100 dark:bg-gray-700 text-gray-800 dark:text-gray-200'')"

definition handleEdit :: "task \<Rightarrow> editing_task option" where
  "handleEdit t = Some \<lparr>edit_id = task_id t, edit_text = task_text t, edit_priority = priority t\<rparr>"

definition handleCancelEdit :: "editing_task option" where
  "handleCancelEdit = None"

definition handleSaveEdit :: "editing_task option \<Rightarrow> editing_task option \<times> store_call option" where
  "handleSaveEdit e =
     (case e of
        Some et \<Rightarrow>
          if trim (edit_text et) \<noteq> []
          then (None, Some (UpdateTask (edit_id et) (edit_text et) (edit_priority et)))
          else (e, None)
      | None \<Rightarrow> (e, None))"

definition setEditText :: "editing_task option \<Rightarrow> jstr \<Rightarrow> editing_task option" where
  "setEditText e v = map_option (\<lambda>et. et\<lparr>edit_text := v\<rparr>) e"

definition setEditPriority :: "editing_task option \<Rightarrow> priority \<Rightarrow> editing_task option" where
  "setEditPriority e p = map_option (\<lambda>et. et\<lparr>edit_priority := p\<rparr>) e"

definition row_editing :: "editing_task option \<Rightarrow> task \<Rightarrow> bool" where
  "row_editing e t = (case e of Some et \<Rightarrow> edit_id et = task_id t | None \<Rightarrow> False)"

datatype list_event =
    ClickToggle nat
  | ClickEdit nat
  | ClickDelete nat
  | EditText jstr
  | EditPriority priority
  | ClickSave
  | ClickCancel

fun list_enabled :: "task list \<Rightarrow> editing_task option \<Rightarrow> list_event \<Rightarrow> bool" where
  "list_enabled tasks e (ClickToggle i) = (i < length tasks \<and> \<not> row_editing e (tasks ! i))"
| "list_enabled tasks e (ClickEdit i) = (i < length tasks \<and> \<not> row_editing e (tasks ! i))"
| "list_enabled tasks e (ClickDelete i) = (i < length tasks \<and> \<not> row_editing e (tasks ! i))"
| "list_enabled tasks e (EditText v) = list_ex (row_editing e) tasks"
| "list_enabled tasks e (EditPriority p) = list_ex (row_editing e) tasks"
| "list_enabled tasks e ClickSave = list_ex (row_editing e) tasks"
| "list_enabled tasks e ClickCancel = list_ex (row_editing e) tasks"

fun taskList_step ::
  "task list \<Rightarrow> editing_task option \<Rightarrow> list_event \<Rightarrow> editing_task option \<times> store_call option" where
  "taskList_step tasks e (ClickToggle i) = (e, Some (ToggleTask (task_id (tasks ! i))))"
| "taskList_step tasks e (ClickEdit i) = (handleEdit (tasks ! i), None)"
| "taskList_step tasks e (ClickDelete i) = (e, Some (DeleteTask (task_id (tasks ! i))))"
| "taskList_step tasks e (EditText v) = (setEditText e v, None)"
| "taskList_step tasks e (EditPriority p) = (setEditPriority e p, None)"
| "taskList_step tasks e ClickSave = handleSaveEdit e"
| "taskList_step tasks e ClickCancel = (handleCancelEdit, None)"

declare handleSaveEdit_def [handler_simps] handleEdit_def [handler_simps]
  setEditText_def [handler_simps] setEditPriority_def [handler_simps]
  handleCancelEdit_def [handler_simps]

subsection \<open>Shared facts\<close>

lemma row_editing_Some [simp]: "row_editing (Some et) t \<longleftrightarrow> edit_id et = task_id t"
  by (simp add: row_editing_def)

lemma row_editing_None [simp]: "\<not> row_editing None t"
  by (simp add: row_editing_def)

lemma edit_id_setEditText [simp]: "map_option edit_id (setEditText e v) = map_option edit_id e"
  by (cases e) (simp_all add: setEditText_def)

lemma edit_id_setEditPriority [simp]:
  "map_option edit_id (setEditPriority e p) = map_option edit_id e"
  by (cases e) (simp_all add: setEditPriority_def)

lemma handleSaveEdit_cases:
  "handleSaveEdit e = (e, None) \<or>
   (\<exists>et. e = Some et \<and> handleSaveEdit e = (None, Some (UpdateTask (edit_id et) (edit_text et) (edit_priority et))))"
  by (cases e) (simp_all add: handleSaveEdit_def)

lemma filter_row_editing_Some:
  "filter (row_editing (Some et)) tasks = filter (\<lambda>t. task_id t = edit_id et) tasks"
  by (induction tasks) auto

lemma distinct_map_filter_eq_le1:
  "distinct (map f xs) \<Longrightarrow> length (filter (\<lambda>x. f x = k) xs) \<le> 1"
proof (induction xs)
  case (Cons x xs)
  then have "f x \<notin> f ` set xs" by simp
  then have "k = f x \<Longrightarrow> filter (\<lambda>x. f x = k) xs = []"
    by (auto simp: filter_empty_conv image_iff)
  with Cons show ?case by auto
qed simp

subsection \<open>Properties of the list view\<close>

text \<open>
  C12. Saving an edit whose text is empty or white space makes no call and keeps
  the row in edit mode: the only way out is the cancel button.
\<close>

theorem save_blank_stays_editing:
  assumes "blank (edit_text et)"
  shows "taskList_step tasks (Some et) ClickSave = (Some et, None)"
  using assms by (simp add: handleSaveEdit_def)

theorem save_blank_stays_editing_witness:
  "blank (js '' '') \<and>
   taskList_step [] (Some \<lparr>edit_id = js ''a'', edit_text = js '' '', edit_priority = Low\<rparr>) ClickSave
     = (Some \<lparr>edit_id = js ''a'', edit_text = js '' '', edit_priority = Low\<rparr>, None)"
proof -
  have b: "blank (js '' '')" by (simp add: js_whitespace_def)
  show ?thesis
    using b save_blank_stays_editing [of "\<lparr>edit_id = js ''a'', edit_text = js '' '', edit_priority = Low\<rparr>" "[]"]
    by simp
qed

text \<open>
  C13. Saving an edit whose text has a non-white-space code unit calls
  \<^verbatim>\<open>onUpdateTask\<close> with the edited id, the untrimmed text and the priority, and
  leaves edit mode.
\<close>

theorem save_commits:
  assumes "\<not> blank (edit_text et)"
  shows "taskList_step tasks (Some et) ClickSave =
           (None, Some (UpdateTask (edit_id et) (edit_text et) (edit_priority et)))"
  using assms by (simp add: handleSaveEdit_def)

theorem save_commits_witness:
  "\<not> blank (js ''Call Bob '') \<and>
   taskList_step [] (Some \<lparr>edit_id = js ''a'', edit_text = js ''Call Bob '', edit_priority = High\<rparr>) ClickSave
     = (None, Some (UpdateTask (js ''a'') (js ''Call Bob '') High))"
proof -
  have b: "\<not> blank (js ''Call Bob '')" by (simp add: js_whitespace_def)
  show ?thesis
    using b save_commits [of "\<lparr>edit_id = js ''a'', edit_text = js ''Call Bob '', edit_priority = High\<rparr>" "[]"]
    by simp
qed

text \<open>
  C14. When the identifiers of the list are distinct, at most one row is rendered in
  edit mode.
\<close>

theorem at_most_one_editing_row:
  assumes "store_wf tasks"
  shows "length (filter (row_editing e) tasks) \<le> 1"
proof (cases e)
  case None
  then show ?thesis by simp
next
  case (Some et)
  have "length (filter (\<lambda>t. task_id t = edit_id et) tasks) \<le> 1"
    using assms by (intro distinct_map_filter_eq_le1) (simp add: store_wf_def)
  with Some show ?thesis by (simp add: filter_row_editing_Some)
qed

theorem at_most_one_editing_row_witness:
  "store_wf [\<lparr>task_id = js ''a'', task_text = js ''x'', completed = False, priority = Low\<rparr>,
             \<lparr>task_id = js ''b'', task_text = js ''y'', completed = False, priority = Low\<rparr>]
   \<and> length (filter (row_editing (Some \<lparr>edit_id = js ''a'', edit_text = js ''x'', edit_priority = Low\<rparr>))
       [\<lparr>task_id = js ''a'', task_text = js ''x'', completed = False, priority = Low\<rparr>,
        \<lparr>task_id = js ''b'', task_text = js ''y'', completed = False, priority = Low\<rparr>]) \<le> 1"
proof -
  have wf: "store_wf [\<lparr>task_id = js ''a'', task_text = js ''x'', completed = False, priority = Low\<rparr>,
             \<lparr>task_id = js ''b'', task_text = js ''y'', completed = False, priority = Low\<rparr>]"
    by (simp add: store_wf_def)
  show ?thesis
    using wf at_most_one_editing_row [OF wf, of "Some \<lparr>edit_id = js ''a'', edit_text = js ''x'', edit_priority = Low\<rparr>"]
    by blast
qed

end
