(* ===== verification/Json.thy ===== *)
theory Json
  imports Prelude
begin

text \<open>
  The two JSON built-ins the program calls, \<^verbatim>\<open>JSON.stringify\<close> and
  \<^verbatim>\<open>JSON.parse\<close> (\<^verbatim>\<open>src/src/App.tsx\<close>, lines 11 and 15). They are not
  code of the repository: they are modelled from ECMAScript's SerializeJSONProperty,
  QuoteJSONString and the JSON grammar (RFC 8259) over UTF-16 code units.
  \<^item> \<open>json\<close> is the JSON value; an object is the list of its members in order,
    and a number keeps its lexeme (the program never stores a number).
  \<^item> \<open>stringify\<close> prints without white space, as \<^verbatim>\<open>JSON.stringify(v)\<close> does;
    \<open>quote_units\<close> escapes quote, backslash and control code units and every lone
    surrogate (\<open>\\uXXXX\<close> with lower-case digits), and copies surrogate pairs.
  \<^item> \<open>parse_value\<close>, \<open>parse_elems\<close> and \<open>parse_members\<close> are a recursive-descent
    parser with fuel; running out of fuel is \<open>Inl OutOfFuel\<close>, a syntax error
    \<open>Inl SyntaxError\<close>. \<open>JSON_parse\<close> gives it \<open>2 * length s + 1\<close> units, which
    is always enough (\<open>parse_fuel_enough\<close>), so \<open>None\<close> is exactly the
    \<^verbatim>\<open>SyntaxError\<close> that \<^verbatim>\<open>JSON.parse\<close> throws.
  The main results are the round trip \<open>JSON_parse (stringify v) = Some v\<close> for every
  value without numbers (\<open>parse_stringify_no_num\<close>), and the fuel bound
  (\<open>parse_fuel_enough\<close>).
\<close>

subsection \<open>Definitions\<close>

definition hex_digit :: "nat \<Rightarrow> code_unit" where
  "hex_digit d = (if d < 10 then of_nat (48 + d) else of_nat (87 + d))"

definition is_hex :: "code_unit \<Rightarrow> bool" where
  "is_hex c \<longleftrightarrow> (0x30 \<le> c \<and> c \<le> 0x39) \<or> (0x61 \<le> c \<and> c \<le> 0x66) \<or> (0x41 \<le> c \<and> c \<le> 0x46)"

definition hex_val :: "code_unit \<Rightarrow> nat" where
  "hex_val c = (if c \<le> 0x39 then unat c - 48 else if c \<le> 0x46 then unat c - 55 else unat c - 87)"

definition hex4 :: "code_unit \<Rightarrow> jstr" where
  "hex4 c = [hex_digit (unat c div 4096 mod 16), hex_digit (unat c div 256 mod 16),
             hex_digit (unat c div 16 mod 16), hex_digit (unat c mod 16)]"

definition hex4_val :: "jstr \<Rightarrow> code_unit" where
  "hex4_val ds = of_nat (foldl (\<lambda>acc d. acc * 16 + hex_val d) 0 ds)"

definition is_lead :: "code_unit \<Rightarrow> bool" where
  "is_lead c \<longleftrightarrow> 0xD800 \<le> c \<and> c \<le> 0xDBFF"

definition is_trail :: "code_unit \<Rightarrow> bool" where
  "is_trail c \<longleftrightarrow> 0xDC00 \<le> c \<and> c \<le> 0xDFFF"

definition short_escape :: "code_unit \<Rightarrow> code_unit option" where
  "short_escape c =
     (if c = 0x08 then Some 0x62 else if c = 0x09 then Some 0x74
      else if c = 0x0A then Some 0x6E else if c = 0x0C then Some 0x66
      else if c = 0x0D then Some 0x72 else if c = 0x22 then Some 0x22
      else if c = 0x5C then Some 0x5C else None)"

definition unicode_escape :: "code_unit \<Rightarrow> jstr" where
  "unicode_escape c = 0x5C # 0x75 # hex4 c"

fun quote_units :: "jstr \<Rightarrow> jstr" where
  "quote_units [] = []"
| "quote_units (c # cs) =
     (case short_escape c of
        Some e \<Rightarrow> 0x5C # e # quote_units cs
      | None \<Rightarrow>
          if c < 0x20 then unicode_escape c @ quote_units cs
          else if is_lead c then
            (case cs of
               [] \<Rightarrow> unicode_escape c
             | d # ds \<Rightarrow> if is_trail d then c # d # quote_units ds
                         else unicode_escape c @ quote_units cs)
          else if is_trail c then unicode_escape c @ quote_units cs
          else c # quote_units cs)"

definition quote :: "jstr \<Rightarrow> jstr" where
  "quote s = 0x22 # quote_units s @ [0x22]"

definition unescape :: "code_unit \<Rightarrow> code_unit option" where
  "unescape e =
     (if e = 0x22 then Some 0x22 else if e = 0x5C then Some 0x5C
      else if e = 0x2F then Some 0x2F else if e = 0x62 then Some 0x08
      else if e = 0x66 then Some 0x0C else if e = 0x6E then Some 0x0A
      else if e = 0x72 then Some 0x0D else if e = 0x74 then Some 0x09 else None)"

fun parse_string :: "jstr \<Rightarrow> (jstr \<times> jstr) option" where
  "parse_string [] = None"
| "parse_string (c # r) =
     (if c = 0x22 then Some ([], r)
      else if c = 0x5C then
        (case r of
           [] \<Rightarrow> None
         | e # r' \<Rightarrow>
             (case unescape e of
                Some u \<Rightarrow> map_option (\<lambda>(s, r''). (u # s, r'')) (parse_string r')
              | None \<Rightarrow>
                  if e = 0x75 \<and> 4 \<le> length r' \<and> list_all is_hex (take 4 r')
                  then map_option (\<lambda>(s, r''). (hex4_val (take 4 r') # s, r'')) (parse_string (drop 4 r'))
                  else None))
      else if c < 0x20 then None
      else map_option (\<lambda>(s, r'). (c # s, r')) (parse_string r))"

datatype json = JNull | JBool bool | JNum jstr | JStr jstr | JArr "json list" | JObj "(jstr \<times> json) list"

datatype parse_error = SyntaxError | OutOfFuel

fun stringify :: "json \<Rightarrow> jstr"
and stringify_elems :: "json list \<Rightarrow> jstr"
and stringify_members :: "(jstr \<times> json) list \<Rightarrow> jstr" where
  "stringify JNull = js ''null''"
| "stringify (JBool b) = (if b then js ''true'' else js ''false'')"
| "stringify (JNum n) = n"
| "stringify (JStr s) = quote s"
| "stringify (JArr vs) = 0x5B # stringify_elems vs @ [0x5D]"
| "stringify (JObj ms) = 0x7B # stringify_members ms @ [0x7D]"
| "stringify_elems [] = []"
| "stringify_elems [v] = stringify v"
| "stringify_elems (v # w # vs) = stringify v @ 0x2C # stringify_elems (w # vs)"
| "stringify_members [] = []"
| "stringify_members [(k, v)] = quote k @ 0x3A # stringify v"
| "stringify_members ((k, v) # m # ms) = quote k @ 0x3A # stringify v @ 0x2C # stringify_members (m # ms)"

definition json_ws :: "code_unit \<Rightarrow> bool" where
  "json_ws c \<longleftrightarrow> c = 0x20 \<or> c = 0x09 \<or> c = 0x0A \<or> c = 0x0D"

definition skip_ws :: "jstr \<Rightarrow> jstr" where
  "skip_ws s = dropWhile json_ws s"

definition is_digit :: "code_unit \<Rightarrow> bool" where
  "is_digit c \<longleftrightarrow> 0x30 \<le> c \<and> c \<le> 0x39"

definition scan_digits1 :: "jstr \<Rightarrow> (jstr \<times> jstr) option" where
  "scan_digits1 s = (if takeWhile is_digit s = [] then None
                     else Some (takeWhile is_digit s, dropWhile is_digit s))"

definition scan_int :: "jstr \<Rightarrow> (jstr \<times> jstr) option" where
  "scan_int s = (case s of
      c # r \<Rightarrow> if c = 0x30 then Some ([c], r) else scan_digits1 s
    | [] \<Rightarrow> None)"

definition scan_frac :: "jstr \<Rightarrow> (jstr \<times> jstr) option" where
  "scan_frac s = (case s of
      c # r \<Rightarrow> if c = 0x2E then map_option (\<lambda>(ds, r'). (c # ds, r')) (scan_digits1 r) else Some ([], s)
    | [] \<Rightarrow> Some ([], s))"

definition scan_exp :: "jstr \<Rightarrow> (jstr \<times> jstr) option" where
  "scan_exp s = (case s of
      c # r \<Rightarrow>
        if c = 0x65 \<or> c = 0x45 then
          (case r of
             d # r' \<Rightarrow> if d = 0x2B \<or> d = 0x2D
                        then map_option (\<lambda>(ds, r''). (c # d # ds, r'')) (scan_digits1 r')
                        else map_option (\<lambda>(ds, r''). (c # ds, r'')) (scan_digits1 r)
           | [] \<Rightarrow> None)
        else Some ([], s)
    | [] \<Rightarrow> Some ([], s))"

definition scan_number :: "jstr \<Rightarrow> (jstr \<times> jstr) option" where
  "scan_number s =
     (let (sign, s1) = (case s of c # r \<Rightarrow> if c = 0x2D then ([c], r) else ([], s) | [] \<Rightarrow> ([], s))
      in case scan_int s1 of None \<Rightarrow> None
         | Some (i, s2) \<Rightarrow> (case scan_frac s2 of None \<Rightarrow> None
            | Some (f, s3) \<Rightarrow> (case scan_exp s3 of None \<Rightarrow> None
               | Some (x, s4) \<Rightarrow> Some (sign @ i @ f @ x, s4))))"

definition parse_literal :: "jstr \<Rightarrow> json \<Rightarrow> jstr \<Rightarrow> parse_error + (json \<times> jstr)" where
  "parse_literal lit v s =
     (if take (length lit) s = lit then Inr (v, drop (length lit) s) else Inl SyntaxError)"

fun parse_value :: "nat \<Rightarrow> jstr \<Rightarrow> parse_error + (json \<times> jstr)"
and parse_elems :: "nat \<Rightarrow> jstr \<Rightarrow> parse_error + (json list \<times> jstr)"
and parse_members :: "nat \<Rightarrow> jstr \<Rightarrow> parse_error + ((jstr \<times> json) list \<times> jstr)" where
  "parse_value 0 s = Inl OutOfFuel"
| "parse_value (Suc n) s =
     (case skip_ws s of
        [] \<Rightarrow> Inl SyntaxError
      | c # r \<Rightarrow>
          if c = 0x7B then
            (case skip_ws r of
               d # r' \<Rightarrow> if d = 0x7D then Inr (JObj [], r')
                         else (case parse_members n r of
                                 Inl err \<Rightarrow> Inl err
                               | Inr (ms, r'') \<Rightarrow> Inr (JObj ms, r''))
             | [] \<Rightarrow> Inl SyntaxError)
          else if c = 0x5B then
            (case skip_ws r of
               d # r' \<Rightarrow> if d = 0x5D then Inr (JArr [], r')
                         else (case parse_elems n r of
                                 Inl err \<Rightarrow> Inl err
                               | Inr (vs, r'') \<Rightarrow> Inr (JArr vs, r''))
             | [] \<Rightarrow> Inl SyntaxError)
          else if c = 0x22 then
            (case parse_string r of
               None \<Rightarrow> Inl SyntaxError
             | Some (str, r') \<Rightarrow> Inr (JStr str, r'))
          else if c = 0x74 then parse_literal (js ''rue'') (JBool True) r
          else if c = 0x66 then parse_literal (js ''alse'') (JBool False) r
          else if c = 0x6E then parse_literal (js ''ull'') JNull r
          else if c = 0x2D \<or> is_digit c then
            (case scan_number (c # r) of
               None \<Rightarrow> Inl SyntaxError
             | Some (lexeme, r') \<Rightarrow> Inr (JNum lexeme, r'))
          else Inl SyntaxError)"
| "parse_elems 0 s = Inl OutOfFuel"
| "parse_elems (Suc n) s =
     (case parse_value n s of
        Inl err \<Rightarrow> Inl err
      | Inr (v, r) \<Rightarrow>
          (case skip_ws r of
             c # r' \<Rightarrow>
               if c = 0x2C then
                 (case parse_elems n r' of
                    Inl err \<Rightarrow> Inl err
                  | Inr (vs, r'') \<Rightarrow> Inr (v # vs, r''))
               else if c = 0x5D then Inr ([v], r')
               else Inl SyntaxError
           | [] \<Rightarrow> Inl SyntaxError))"
| "parse_members 0 s = Inl OutOfFuel"
| "parse_members (Suc n) s =
     (case skip_ws s of
        c # r \<Rightarrow>
          if c \<noteq> 0x22 then Inl SyntaxError
          else (case parse_string r of
             None \<Rightarrow> Inl SyntaxError
           | Some (k, r1) \<Rightarrow>
               (case skip_ws r1 of
                  d # r2 \<Rightarrow>
                    if d \<noteq> 0x3A then Inl SyntaxError
                    else (case parse_value n r2 of
                       Inl err \<Rightarrow> Inl err
                     | Inr (v, r3) \<Rightarrow>
                         (case skip_ws r3 of
                            e # r4 \<Rightarrow>
                              if e = 0x2C then
                                (case parse_members n r4 of
                                   Inl err \<Rightarrow> Inl err
                                 | Inr (ms, r5) \<Rightarrow> Inr ((k, v) # ms, r5))
                              else if e = 0x7D then Inr ([(k, v)], r4)
                              else Inl SyntaxError
                          | [] \<Rightarrow> Inl SyntaxError))
                | [] \<Rightarrow> Inl SyntaxError))
      | [] \<Rightarrow> Inl SyntaxError)"

definition JSON_parse :: "jstr \<Rightarrow> json option" where
  "JSON_parse s =
     (case parse_value (Suc (2 * length s)) s of
        Inr (v, r) \<Rightarrow> if skip_ws r = [] then Some v else None
      | Inl _ \<Rightarrow> None)"

fun no_num :: "json \<Rightarrow> bool"
and no_num_elems :: "json list \<Rightarrow> bool"
and no_num_members :: "(jstr \<times> json) list \<Rightarrow> bool" where
  "no_num (JNum _) = False"
| "no_num (JArr vs) = no_num_elems vs"
| "no_num (JObj ms) = no_num_members ms"
| "no_num _ = True"
| "no_num_elems [] = True"
| "no_num_elems (v # vs) = (no_num v \<and> no_num_elems vs)"
| "no_num_members [] = True"
| "no_num_members ((k, v) # ms) = (no_num v \<and> no_num_members ms)"

subsection \<open>Hexadecimal escapes and string literals\<close>

lemma nat_hex4: "(n::nat) < 65536 \<Longrightarrow>
  ((n div 4096 mod 16 * 16 + n div 256 mod 16) * 16 + n div 16 mod 16) * 16 + n mod 16 = n"
proof -
  assume "n < 65536"
  then have a: "n div 4096 mod 16 = n div 4096" by simp
  have e1: "n div 4096 = n div 256 div 16" using div_mult2_eq [of n 256 16] by simp
  have e2: "n div 256 = n div 16 div 16" using div_mult2_eq [of n 16 16] by simp
  have b: "n div 4096 * 16 + n div 256 mod 16 = n div 256"
    using div_mult_mod_eq [of "n div 256" 16] e1 by simp
  have c: "n div 256 * 16 + n div 16 mod 16 = n div 16"
    using div_mult_mod_eq [of "n div 16" 16] e2 by simp
  have d: "n div 16 * 16 + n mod 16 = n"
    using div_mult_mod_eq [of n 16] by simp
  show ?thesis by (simp only: a b c d)
qed

lemma unat_hex_digit:
  assumes "d < 16"
  shows "unat (hex_digit d) = (if d < 10 then 48 + d else 87 + d)"
proof (cases "d < 10")
  case True
  then show ?thesis by (simp add: hex_digit_def unat_of_nat del: of_nat_add)
next
  case False
  with assms show ?thesis by (simp add: hex_digit_def unat_of_nat del: of_nat_add)
qed

lemma hex_digit_props: "d < 16 \<Longrightarrow> is_hex (hex_digit d) \<and> hex_val (hex_digit d) = d"
  by (auto simp: is_hex_def hex_val_def word_le_nat_alt unat_hex_digit)

lemma hex_val_hex_digit_mod: "hex_val (hex_digit (n mod 16)) = n mod 16"
  by (simp add: hex_digit_props)

lemma hex4_roundtrip: "hex4_val (hex4 c) = c \<and> list_all is_hex (hex4 c) \<and> length (hex4 c) = 4"
proof -
  have lt: "unat c < 65536" using unsigned_less [of c, where ?'a = nat] by simp
  have "foldl (\<lambda>acc d. acc * 16 + hex_val d) 0 (hex4 c) = unat c"
    using lt by (simp only: hex4_def foldl_Cons foldl_Nil hex_val_hex_digit_mod mult_zero_left
        add_0_left nat_hex4)
  then have "hex4_val (hex4 c) = of_nat (unat c)"
    by (simp only: hex4_val_def)
  then show ?thesis by (simp add: hex4_def hex_digit_props)
qed

lemma unescape_short_escape: "short_escape c = Some e \<Longrightarrow> unescape e = Some c"
  by (simp add: short_escape_def unescape_def split: if_splits)

lemma short_escape_None: "short_escape c = None \<Longrightarrow> c \<noteq> 0x22 \<and> c \<noteq> 0x5C"
  by (simp add: short_escape_def split: if_splits)

lemma unescape_u: "unescape 0x75 = None"
  by (simp add: unescape_def)

lemma parse_string_unicode_escape:
  "parse_string (unicode_escape c @ r) = map_option (\<lambda>(s, r'). (c # s, r')) (parse_string r)"
  using hex4_roundtrip [of c] by (simp add: unicode_escape_def unescape_u)

lemma parse_string_raw:
  "c \<noteq> 0x22 \<Longrightarrow> c \<noteq> 0x5C \<Longrightarrow> \<not> c < 0x20 \<Longrightarrow>
   parse_string (c # r) = map_option (\<lambda>(s, r'). (c # s, r')) (parse_string r)"
  by simp

lemma parse_quote_units:
  "parse_string (quote_units s @ 0x22 # rest) = Some (s, rest)"
proof (induction s rule: quote_units.induct)
  case 1
  then show ?case by simp
next
  case (2 c cs)
  show ?case
  proof (cases "short_escape c")
    case (Some e)
    then show ?thesis using 2 by (simp add: unescape_short_escape)
  next
    case None
    note nq = short_escape_None [OF None]
    show ?thesis
    proof (cases "c < 0x20")
      case True
      then show ?thesis using 2 None by (simp add: parse_string_unicode_escape)
    next
      case low: False
      show ?thesis
      proof (cases "is_lead c")
        case lead: True
        show ?thesis
        proof (cases cs)
          case Nil
          then show ?thesis using None low lead by (simp add: parse_string_unicode_escape)
        next
          case (Cons d ds)
          show ?thesis
          proof (cases "is_trail d")
            case True
            have "\<not> d < 0x20 \<and> d \<noteq> 0x22 \<and> d \<noteq> 0x5C"
              using True by (auto simp: is_trail_def word_le_nat_alt word_less_nat_alt)
            then show ?thesis using 2 None low lead Cons True nq by simp
          next
            case False
            then show ?thesis using 2 None low lead Cons by (simp add: parse_string_unicode_escape)
          qed
        qed
      next
        case nlead: False
        show ?thesis
          using 2 None low nlead nq by (cases "is_trail c") (simp_all add: parse_string_unicode_escape)
      qed
    qed
  qed
qed

lemma parse_quote: "parse_string (tl (quote s) @ rest) = Some (s, rest)"
  by (simp add: quote_def parse_quote_units)

lemma stringify_first:
  "no_num v \<Longrightarrow> \<exists>c cs. stringify v = c # cs \<and> c \<in> {0x6E, 0x74, 0x66, 0x22, 0x5B, 0x7B}"
  by (cases v) (auto simp: quote_def)

lemma stringify_elems_first:
  "no_num_elems (v # vs) \<Longrightarrow> \<exists>c cs. stringify_elems (v # vs) = c # cs \<and> c \<in> {0x6E, 0x74, 0x66, 0x22, 0x5B, 0x7B}"
  by (cases vs) (auto dest!: stringify_first)

lemma stringify_members_first:
  "\<exists>cs. stringify_members ((k, v) # ms) = 0x22 # cs"
  by (cases ms) (auto simp: quote_def)

lemma skip_ws_start:
  "c \<in> {0x6E, 0x74, 0x66, 0x22, 0x5B, 0x7B, 0x5D, 0x7D, 0x2C, 0x3A} \<Longrightarrow> skip_ws (c # r) = c # r"
  by (auto simp: skip_ws_def json_ws_def)

lemma length_stringify_pos: "no_num v \<Longrightarrow> 0 < length (stringify v)"
  by (auto dest!: stringify_first)

lemma parse_roundtrip:
  "no_num v \<Longrightarrow> 2 * length (stringify v) < n \<Longrightarrow>
     parse_value n (stringify v @ rest) = Inr (v, rest)"
  and "no_num_elems vs \<Longrightarrow> vs \<noteq> [] \<Longrightarrow> 2 * length (stringify_elems vs) + 1 < n \<Longrightarrow>
     parse_elems n (stringify_elems vs @ 0x5D # rest) = Inr (vs, rest)"
  and "no_num_members ms \<Longrightarrow> ms \<noteq> [] \<Longrightarrow> 2 * length (stringify_members ms) + 1 < n \<Longrightarrow>
     parse_members n (stringify_members ms @ 0x7D # rest) = Inr (ms, rest)"
proof (induction v and vs and ms arbitrary: n rest and n rest and n rest
    rule: stringify_stringify_elems_stringify_members.induct)
  case 1
  then obtain m where "n = Suc m" by (cases n) auto
  then show ?case by (simp add: skip_ws_def json_ws_def parse_literal_def)
next
  case (2 b)
  then obtain m where "n = Suc m" by (cases n) auto
  then show ?case by (simp add: skip_ws_def json_ws_def parse_literal_def)
next
  case (3 x)
  then show ?case by simp
next
  case (4 s)
  then obtain m where "n = Suc m" by (cases n) auto
  then show ?case by (simp add: skip_ws_def json_ws_def quote_def parse_quote_units)
next
  case (5 vs)
  then obtain m where n: "n = Suc m" by (cases n) auto
  show ?case
  proof (cases vs)
    case Nil
    then show ?thesis using n by (simp add: skip_ws_def json_ws_def)
  next
    case (Cons w ws)
    obtain c cs where first: "stringify_elems vs = c # cs" "c \<in> {0x6E, 0x74, 0x66, 0x22, 0x5B, 0x7B}"
      using stringify_elems_first [of w ws] 5 Cons by auto
    have "parse_elems m (stringify_elems vs @ 0x5D # rest) = Inr (vs, rest)"
      using 5 n Cons by simp
    then show ?thesis using n first by (auto simp: skip_ws_start)
  qed
next
  case (6 ms)
  then obtain m where n: "n = Suc m" by (cases n) auto
  show ?case
  proof (cases ms)
    case Nil
    then show ?thesis using n by (simp add: skip_ws_def json_ws_def)
  next
    case (Cons p ps)
    obtain k v where p: "p = (k, v)" by fastforce
    obtain cs where first: "stringify_members ms = 0x22 # cs"
      using stringify_members_first [of k v ps] Cons p by auto
    have "parse_members m (stringify_members ms @ 0x7D # rest) = Inr (ms, rest)"
      using 6 n Cons by simp
    then show ?thesis using n first by (simp add: skip_ws_start)
  qed
next
  case 7
  then show ?case by simp
next
  case (8 v)
  then obtain m where n: "n = Suc m" by (cases n) auto
  have "parse_value m (stringify v @ 0x5D # rest) = Inr (v, 0x5D # rest)"
    using 8 n by simp
  then show ?case using n by (simp add: skip_ws_start)
next
  case (9 v w vs)
  then obtain m where n: "n = Suc m" by (cases n) auto
  from 9 have "no_num v" by simp
  then have pos: "0 < length (stringify v)" by (rule length_stringify_pos)
  have "parse_value m (stringify v @ 0x2C # stringify_elems (w # vs) @ 0x5D # rest)
        = Inr (v, 0x2C # stringify_elems (w # vs) @ 0x5D # rest)"
    using 9 n by simp
  moreover have "parse_elems m (stringify_elems (w # vs) @ 0x5D # rest) = Inr (w # vs, rest)"
    using 9 n pos by simp
  ultimately show ?case using n by (simp add: skip_ws_start)
next
  case 10
  then show ?case by simp
next
  case (11 k v)
  then obtain m where n: "n = Suc m" by (cases n) auto
  have "parse_value m (stringify v @ 0x7D # rest) = Inr (v, 0x7D # rest)"
    using 11 n by simp
  then show ?case using n by (simp add: skip_ws_start quote_def parse_quote_units)
next
  case (12 k v p ps)
  then obtain m where n: "n = Suc m" by (cases n) auto
  from 12 have "no_num v" by simp
  then have pos: "0 < length (stringify v)" by (rule length_stringify_pos)
  have "parse_value m (stringify v @ 0x2C # stringify_members (p # ps) @ 0x7D # rest)
        = Inr (v, 0x2C # stringify_members (p # ps) @ 0x7D # rest)"
    using 12 n by simp
  moreover have "parse_members m (stringify_members (p # ps) @ 0x7D # rest) = Inr (p # ps, rest)"
    using 12 n pos by (cases p) simp
  ultimately show ?case using n by (simp add: skip_ws_start quote_def parse_quote_units)
qed

lemma parse_stringify_no_num: "no_num v \<Longrightarrow> JSON_parse (stringify v) = Some v"
proof -
  assume v: "no_num v"
  have "parse_value (Suc (2 * length (stringify v))) (stringify v @ []) = Inr (v, [])"
    using v by (intro parse_roundtrip(1)) simp_all
  then show ?thesis by (simp add: JSON_parse_def skip_ws_def)
qed

lemma parse_string_shorter: "parse_string s = Some (x, r) \<Longrightarrow> length r < length s"
  by (induction s arbitrary: x rule: parse_string.induct)
     (fastforce split: if_splits list.splits option.splits)+

lemma length_skip_ws: "length (skip_ws s) \<le> length s"
  by (simp add: skip_ws_def length_dropWhile_le)

lemma skip_ws_Cons_shorter: "skip_ws s = c # r \<Longrightarrow> length r < length s"
  using length_skip_ws [of s] by simp

lemma scan_digits1_shorter: "scan_digits1 s = Some (x, r) \<Longrightarrow> length r < length s"
proof -
  assume a: "scan_digits1 s = Some (x, r)"
  then have ne: "takeWhile is_digit s \<noteq> []" and r: "r = dropWhile is_digit s"
    by (auto simp: scan_digits1_def split: if_splits)
  have "length (takeWhile is_digit s) + length (dropWhile is_digit s) = length s"
    by (metis length_append takeWhile_dropWhile_id)
  with ne r show ?thesis by (cases "takeWhile is_digit s") auto
qed

lemma scan_int_shorter: "scan_int s = Some (x, r) \<Longrightarrow> length r < length s"
  by (auto simp: scan_int_def dest: scan_digits1_shorter split: list.splits if_splits)

lemma scan_frac_shorter: "scan_frac s = Some (x, r) \<Longrightarrow> length r \<le> length s"
  by (fastforce simp: scan_frac_def dest: scan_digits1_shorter split: list.splits if_splits)

lemma scan_exp_shorter: "scan_exp s = Some (x, r) \<Longrightarrow> length r \<le> length s"
  by (fastforce simp: scan_exp_def dest: scan_digits1_shorter split: list.splits if_splits)

lemma scan_number_shorter: "scan_number s = Some (x, r) \<Longrightarrow> length r < length s"
  by (fastforce simp: scan_number_def dest!: scan_int_shorter scan_frac_shorter scan_exp_shorter
      split: list.splits if_splits option.splits)

lemma parse_literal_shorter: "parse_literal lit x s = Inr (v, r) \<Longrightarrow> length r \<le> length s"
  by (auto simp: parse_literal_def split: if_splits)

lemma parse_shorter:
  "parse_value n s = Inr (v, r) \<Longrightarrow> length r < length s"
  "parse_elems n s = Inr (vs, r) \<Longrightarrow> length r < length s"
  "parse_members n s = Inr (ms, r) \<Longrightarrow> length r < length s"
proof (induction n s and n s and n s arbitrary: v r and vs r and ms r
    rule: parse_value_parse_elems_parse_members.induct)
  case (2 n s)
  show ?case
  proof (cases "skip_ws s")
    case Nil
    with 2 show ?thesis by simp
  next
    case (Cons c t)
    then have t: "length t < length s" by (rule skip_ws_Cons_shorter)
    show ?thesis
      using 2 Cons t
      by (auto split: if_splits list.splits option.splits sum.splits
          dest!: parse_string_shorter scan_number_shorter parse_literal_shorter
          dest: skip_ws_Cons_shorter) fastforce+
  qed
next
  case (4 n s)
  then show ?case
    by (fastforce split: list.splits sum.splits if_splits dest: skip_ws_Cons_shorter)
next
  case (6 n s)
  then show ?case
    by (fastforce split: list.splits sum.splits if_splits option.splits
        dest: skip_ws_Cons_shorter parse_string_shorter)
qed simp_all

lemma parse_fuel_enough:
  "2 * length s < n \<Longrightarrow> parse_value n s \<noteq> Inl OutOfFuel"
  "2 * length s + 1 < n \<Longrightarrow> parse_elems n s \<noteq> Inl OutOfFuel"
  "2 * length s + 1 < n \<Longrightarrow> parse_members n s \<noteq> Inl OutOfFuel"
proof (induction n s and n s and n s rule: parse_value_parse_elems_parse_members.induct)
  case (2 n s)
  show ?case
  proof (cases "skip_ws s")
    case Nil
    then show ?thesis by simp
  next
    case (Cons c t)
    then have t: "length t < length s" by (rule skip_ws_Cons_shorter)
    with "2.prems" have fuel: "2 * length t + 1 < n" by simp
    show ?thesis
    proof (cases "c = 0x7B")
      case True
      then show ?thesis
        using "2.IH"(1) Cons fuel by (auto split: list.splits sum.splits)
    next
      case nobj: False
      show ?thesis
      proof (cases "c = 0x5B")
        case True
        then show ?thesis
          using "2.IH"(2) Cons fuel nobj by (auto split: list.splits sum.splits)
      next
        case False
        then show ?thesis
          using Cons nobj by (simp add: parse_literal_def split: option.splits)
      qed
    qed
  qed
next
  case (4 n s)
  show ?case
  proof (cases "parse_value n s")
    case (Inl err)
    then show ?thesis using 4 by auto
  next
    case (Inr p)
    obtain v r where p: "p = (v, r)" by fastforce
    with Inr have "length r < length s" by (auto dest: parse_shorter)
    then show ?thesis
      using 4 Inr p skip_ws_Cons_shorter [of r] by (fastforce split: list.splits if_splits sum.splits)
  qed
next
  case (6 n s)
  show ?case
  proof (cases "skip_ws s")
    case Nil
    then show ?thesis by simp
  next
    case (Cons c t)
    then have t: "length t < length s" by (rule skip_ws_Cons_shorter)
    show ?thesis
    proof (cases "c = 0x22 \<and> (\<exists>k r1 r2. parse_string t = Some (k, r1) \<and> skip_ws r1 = 0x3A # r2)")
      case False
      then show ?thesis using Cons by (auto split: option.splits list.splits)
    next
      case True
      then obtain k r1 r2 where c: "c = 0x22" and k: "parse_string t = Some (k, r1)"
        and r2: "skip_ws r1 = 0x3A # r2" by blast
      have len2: "length r2 < length s"
        using t parse_string_shorter [OF k] skip_ws_Cons_shorter [OF r2] by simp
      have v: "parse_value n r2 \<noteq> Inl OutOfFuel"
        using "6.IH"(1) [of c t "(k, r1)" k r1 "0x3A" r2] Cons c k r2 "6.prems" len2 by simp
      show ?thesis
      proof (cases "parse_value n r2")
        case (Inl err)
        then show ?thesis using Cons c k r2 v by simp
      next
        case (Inr p)
        obtain v r3 where p: "p = (v, r3)" by fastforce
        have len3: "length r3 < length r2" using Inr p by (auto dest: parse_shorter)
        have m: "\<And>r4. skip_ws r3 = 0x2C # r4 \<Longrightarrow> parse_members n r4 \<noteq> Inl OutOfFuel"
        proof -
          fix r4 assume r4: "skip_ws r3 = 0x2C # r4"
          have "length r4 < length r3" using skip_ws_Cons_shorter [OF r4] .
          then show "parse_members n r4 \<noteq> Inl OutOfFuel"
            using "6.IH"(2) [of c t "(k, r1)" k r1 "0x3A" r2 "(v, r3)" v r3 "0x2C" r4]
              Cons c k r2 Inr p r4 "6.prems" len2 len3 by simp
        qed
        show ?thesis
          using Cons c k r2 Inr p m by (auto split: list.splits sum.splits)
      qed
    qed
  qed
qed simp_all

end
