(* ===== verification/Storage.thy ===== *)
theory Storage
  imports Types Json
begin

text \<open>
  The storage adapter of \<^verbatim>\<open>src/src/App.tsx\<close>: the lazy initialiser of the
  \<^verbatim>\<open>tasks\<close> state (lines 9--12) and the effect that persists it (lines 14--16).
  \<^verbatim>\<open>localStorage\<close> is a map from keys to strings; the program uses the one key
  \<^verbatim>\<open>'tasks'\<close>. A task is stored as the object literal \<^verbatim>\<open>addTask\<close> builds,
  whose keys \<^verbatim>\<open>JSON.stringify\<close> prints in insertion order (\<open>encode_task\<close>).

  Loading reads the key; a missing key (\<^verbatim>\<open>null\<close>) or the empty string is falsy
  and gives \<^verbatim>\<open>[]\<close>. Any other text goes to \<^verbatim>\<open>JSON.parse\<close>, without a
  \<^verbatim>\<open>try\<close>: a syntax error is thrown out of the state initialiser and the
  component never mounts (\<open>ParseFailure\<close>). The parsed value is used as
  \<^verbatim>\<open>Task[]\<close> without a check. The first render calls \<^verbatim>\<open>tasks.filter\<close> and reads
  \<^verbatim>\<open>task.completed\<close> of each element, which throws a \<^verbatim>\<open>TypeError\<close> for a value
  that is not an array or an array with a \<^verbatim>\<open>null\<close> element (\<open>RenderTypeError\<close>).
  An array whose elements are not all Task objects does not throw; the program runs
  on with values outside its type, and the model stops there (\<open>UntypedTasks\<close>).
  \<open>decode_task\<close> reads a Task object as \<^verbatim>\<open>JSON.parse\<close> builds it: the last
  member of a key wins, other keys are ignored.
\<close>

type_synonym local_storage = "jstr \<rightharpoonup> jstr"

datatype load_error = ParseFailure | RenderTypeError | UntypedTasks

definition tasks_key :: jstr where
  "tasks_key = js ''tasks''"

definition encode_task :: "task \<Rightarrow> json" where
  "encode_task t =
     JObj [(js ''id'', JStr (task_id t)), (js ''text'', JStr (task_text t)),
           (js ''completed'', JBool (completed t)),
           (js ''priority'', JStr (priority_str (priority t)))]"

definition obj_get :: "(jstr \<times> json) list \<Rightarrow> jstr \<Rightarrow> json option" where
  "obj_get ms k = map_of (rev ms) k"

definition priority_of_str :: "jstr \<Rightarrow> priority option" where
  "priority_of_str p =
     (if p = js ''low'' then Some Low else if p = js ''medium'' then Some Medium
      else if p = js ''high'' then Some High else None)"

fun decode_task :: "json \<Rightarrow> task option" where
  "decode_task (JObj ms) =
     (case (obj_get ms (js ''id''), obj_get ms (js ''text''),
            obj_get ms (js ''completed''), obj_get ms (js ''priority'')) of
        (Some (JStr i), Some (JStr x), Some (JBool c), Some (JStr p)) \<Rightarrow>
          map_option (\<lambda>pr. \<lparr>task_id = i, task_text = x, completed = c, priority = pr\<rparr>)
            (priority_of_str p)
      | _ \<Rightarrow> None)"
| "decode_task _ = None"

fun tasks_of_json :: "json \<Rightarrow> load_error + task list" where
  "tasks_of_json (JArr vs) =
     (if JNull \<in> set vs then Inl RenderTypeError
      else case those (map decode_task vs) of
             Some ts \<Rightarrow> Inr ts
           | None \<Rightarrow> Inl UntypedTasks)"
| "tasks_of_json _ = Inl RenderTypeError"

definition load_tasks :: "local_storage \<Rightarrow> load_error + task list" where
  "load_tasks st =
     (case st tasks_key of
        None \<Rightarrow> Inr []
      | Some saved \<Rightarrow>
          if saved = [] then Inr []
          else (case JSON_parse saved of
                  None \<Rightarrow> Inl ParseFailure
                | Some v \<Rightarrow> tasks_of_json v))"

definition save_tasks :: "local_storage \<Rightarrow> task list \<Rightarrow> local_storage" where
  "save_tasks st tasks = st(tasks_key \<mapsto> stringify (JArr (map encode_task tasks)))"

subsection \<open>Encoding and decoding tasks\<close>

lemma priority_of_str_priority_str [simp]: "priority_of_str (priority_str p) = Some p"
  by (cases p) (simp_all add: priority_of_str_def)

lemma decode_encode_task [simp]: "decode_task (encode_task t) = Some t"
  by (simp add: encode_task_def obj_get_def)

lemma those_map_Some: "(\<forall>x\<in>set xs. f x = Some (g x)) \<Longrightarrow> those (map f xs) = Some (map g xs)"
  by (induction xs) auto

lemma no_num_encode_task [simp]: "no_num (encode_task t)"
  by (simp add: encode_task_def)

lemma no_num_elems_map_encode: "no_num_elems (map encode_task ts)"
  by (induction ts) simp_all

lemma encode_task_not_null [simp]: "encode_task t \<noteq> JNull"
  by (simp add: encode_task_def)

lemma stringify_nonempty: "stringify (JArr vs) \<noteq> []"
  by simp

lemma load_tasks_stored:
  assumes "st tasks_key = Some (stringify (JArr (map encode_task tasks)))"
  shows "load_tasks st = Inr tasks"
proof -
  have parse: "JSON_parse (stringify (JArr (map encode_task tasks))) = Some (JArr (map encode_task tasks))"
    by (rule parse_stringify_no_num) (simp add: no_num_elems_map_encode)
  have "those (map decode_task (map encode_task tasks)) = Some tasks"
    using those_map_Some [of tasks "\<lambda>t. decode_task (encode_task t)" "\<lambda>t. t"] by (simp add: comp_def)
  moreover have "JNull \<notin> set (map encode_task tasks)" by (auto simp: encode_task_def)
  ultimately show ?thesis
    using parse assms by (simp add: load_tasks_def)
qed

subsection \<open>Properties of the storage adapter\<close>

text \<open>
  C5. Loading what the persisting effect saved gives back exactly the saved task
  list, field for field, for any texts and identifiers (any UTF-16 content).
\<close>

theorem save_load_roundtrip: "load_tasks (save_tasks st tasks) = Inr tasks"
  by (simp add: save_tasks_def load_tasks_stored)

text \<open>
  C18. Stored text that is not JSON makes \<^verbatim>\<open>JSON.parse\<close> throw out of the state
  initialiser: loading fails, it does not fall back to an empty list.
\<close>

theorem load_unparsable_fails:
  assumes "saved \<noteq> []" and "JSON_parse saved = None"
  shows "load_tasks (st(tasks_key \<mapsto> saved)) = Inl ParseFailure"
  using assms by (simp add: load_tasks_def)

theorem load_unparsable_fails_witness:
  "js ''not json'' \<noteq> [] \<and> JSON_parse (js ''not json'') = None \<and>
   load_tasks [tasks_key \<mapsto> js ''not json''] = Inl ParseFailure"
proof -
  have ne: "js ''not json'' \<noteq> []" by simp
  have p: "JSON_parse (js ''not json'') = None" by code_simp
  show ?thesis using ne p load_unparsable_fails [OF ne p, of Map.empty] by simp
qed

text \<open>
  C19. Stored text that parses to a JSON value that is not an array, or to an array
  with a \<^verbatim>\<open>null\<close> element, makes the first render throw a \<^verbatim>\<open>TypeError\<close>
  (\<^verbatim>\<open>tasks.filter\<close> or \<^verbatim>\<open>task.completed\<close>): loading fails, it does not
  start empty.
\<close>

theorem load_non_array_fails:
  assumes "saved \<noteq> []" and "JSON_parse saved = Some v"
    and "(\<forall>vs. v \<noteq> JArr vs) \<or> (\<exists>vs. v = JArr vs \<and> JNull \<in> set vs)"
  shows "load_tasks (st(tasks_key \<mapsto> saved)) = Inl RenderTypeError"
proof (cases v)
  case (JArr vs)
  then show ?thesis using assms by (simp add: load_tasks_def)
qed (use assms in \<open>simp_all add: load_tasks_def\<close>)

theorem load_non_array_fails_witness:
  "js ''{}'' \<noteq> [] \<and> JSON_parse (js ''{}'') = Some (JObj [])
   \<and> ((\<forall>vs. JObj [] \<noteq> JArr vs) \<or> (\<exists>vs. JObj [] = JArr vs \<and> JNull \<in> set vs))
   \<and> load_tasks [tasks_key \<mapsto> js ''{}''] = Inl RenderTypeError"
proof -
  have ne: "js ''{}'' \<noteq> []" by simp
  have p: "JSON_parse (js ''{}'') = Some (JObj [])" by code_simp
  have n: "(\<forall>vs. JObj [] \<noteq> JArr vs) \<or> (\<exists>vs. JObj [] = JArr vs \<and> JNull \<in> set vs)" by simp
  show ?thesis using ne p n load_non_array_fails [OF ne p n, of Map.empty] by simp
qed

text \<open>C20. With no stored value, or an empty one, the list starts empty.\<close>

theorem load_absent_empty:
  assumes "st tasks_key = None \<or> st tasks_key = Some []"
  shows "load_tasks st = Inr []"
  using assms by (auto simp: load_tasks_def)

theorem load_absent_empty_witness:
  "(Map.empty tasks_key = None \<or> Map.empty tasks_key = Some []) \<and> load_tasks Map.empty = Inr []"
  using load_absent_empty [of Map.empty] by simp

end
