(* ===== verification/App.thy ===== *)
theory App
  imports TaskInput TaskList Storage
begin

text \<open>
  The composed application of \<^verbatim>\<open>src/src/App.tsx\<close>: the state of the three
  components and of \<^verbatim>\<open>localStorage\<close> in one record, and one step per user
  event. A step runs the handler of the child that owns the event; when the handler
  calls back into \<^verbatim>\<open>App\<close>, \<open>commit\<close> runs the store handler (\<^verbatim>\<open>setTasks\<close>)
  and then the effect on \<^verbatim>\<open>[tasks]\<close>, which writes the whole list back to
  \<^verbatim>\<open>localStorage\<close>. Every store handler builds a new array, so the effect runs
  after each call, even one that changes nothing. Mounting (\<open>app_mount\<close>) runs the
  lazy initialiser and the effect's first run.

  Which events the rendered page offers is \<open>app_enabled\<close>: the form is always
  there, the row controls as \<open>list_enabled\<close> says. \<^verbatim>\<open>crypto.randomUUID()\<close> is the
  environment: the identifier it returns is part of the \<open>Submit\<close> event, and
  \<open>uuid_fresh\<close> is the assumption that it differs from every identifier in the
  list. The reachable states are those of a successful mount followed by enabled
  events with fresh UUIDs; \<open>valid_run\<close> and \<open>app_run\<close> describe the same runs as
  explicit event sequences.
\<close>

record app_state =
  app_tasks :: "task list"
  storage :: local_storage
  form :: input_state
  editing :: "editing_task option"

datatype app_event =
    TypeTask jstr
  | SelectPriority priority
  | Submit jstr
  | ListEvent list_event

definition commit :: "app_state \<Rightarrow> jstr \<Rightarrow> store_call option \<Rightarrow> app_state" where
  "commit s uuid c =
     (case c of
        None \<Rightarrow> s
      | Some call \<Rightarrow>
          (let tasks' = dispatch (app_tasks s) uuid call
           in s\<lparr>app_tasks := tasks', storage := save_tasks (storage s) tasks'\<rparr>))"

fun app_step :: "app_state \<Rightarrow> app_event \<Rightarrow> app_state" where
  "app_step s (TypeTask v) = s\<lparr>form := setTask_input (form s) v\<rparr>"
| "app_step s (SelectPriority p) = s\<lparr>form := setPriority_input (form s) p\<rparr>"
| "app_step s (Submit uuid) =
     (case handleSubmit (form s) of (f, c) \<Rightarrow> commit (s\<lparr>form := f\<rparr>) uuid c)"
| "app_step s (ListEvent ev) =
     (case taskList_step (app_tasks s) (editing s) ev of (e, c) \<Rightarrow> commit (s\<lparr>editing := e\<rparr>) [] c)"

fun app_enabled :: "app_state \<Rightarrow> app_event \<Rightarrow> bool" where
  "app_enabled s (ListEvent ev) = list_enabled (app_tasks s) (editing s) ev"
| "app_enabled s _ = True"

fun uuid_fresh :: "app_state \<Rightarrow> app_event \<Rightarrow> bool" where
  "uuid_fresh s (Submit u) = (u \<notin> set (task_ids (app_tasks s)))"
| "uuid_fresh s _ = True"

definition app_mount :: "local_storage \<Rightarrow> load_error + app_state" where
  "app_mount st =
     (case load_tasks st of
        Inl err \<Rightarrow> Inl err
      | Inr tasks \<Rightarrow>
          Inr \<lparr>app_tasks = tasks, storage = save_tasks st tasks,
               form = taskInput_init, editing = None\<rparr>)"

inductive reachable :: "app_state \<Rightarrow> bool" where
  mount: "app_mount st = Inr s \<Longrightarrow> reachable s"
| step: "reachable s \<Longrightarrow> app_enabled s ev \<Longrightarrow> uuid_fresh s ev \<Longrightarrow> reachable (app_step s ev)"

fun app_run :: "app_state \<Rightarrow> app_event list \<Rightarrow> app_state" where
  "app_run s [] = s"
| "app_run s (ev # evs) = app_run (app_step s ev) evs"

fun valid_run :: "app_state \<Rightarrow> app_event list \<Rightarrow> bool" where
  "valid_run s [] = True"
| "valid_run s (ev # evs) = (app_enabled s ev \<and> uuid_fresh s ev \<and> valid_run (app_step s ev) evs)"

definition persisted :: "app_state \<Rightarrow> bool" where
  "persisted s \<longleftrightarrow> storage s tasks_key = Some (stringify (JArr (map encode_task (app_tasks s))))"

definition editing_present :: "app_state \<Rightarrow> bool" where
  "editing_present s \<longleftrightarrow>
     (case editing s of None \<Rightarrow> True | Some et \<Rightarrow> edit_id et \<in> set (task_ids (app_tasks s)))"

definition app_inv :: "app_state \<Rightarrow> bool" where
  "app_inv s \<longleftrightarrow> persisted s \<and> editing_present s"

subsection \<open>Facts about one step\<close>

lemma commit_fields [simp]:
  "app_tasks (commit s u c) = (case c of None \<Rightarrow> app_tasks s | Some call \<Rightarrow> dispatch (app_tasks s) u call)"
  "editing (commit s u c) = editing s"
  "form (commit s u c) = form s"
  by (simp_all add: commit_def Let_def split: option.splits)

lemma persisted_commit: "persisted s \<Longrightarrow> persisted (commit s u c)"
  by (simp add: commit_def persisted_def save_tasks_def Let_def split: option.splits)

lemma persisted_fields [simp]:
  "persisted (s\<lparr>form := f\<rparr>) = persisted s"
  "persisted (s\<lparr>editing := e\<rparr>) = persisted s"
  by (simp_all add: persisted_def)

lemma persisted_step: "persisted s \<Longrightarrow> persisted (app_step s ev)"
proof (cases ev)
  case (Submit u)
  assume "persisted s"
  then show ?thesis using Submit
    by (simp add: persisted_commit split: prod.splits)
next
  case (ListEvent le)
  assume "persisted s"
  then show ?thesis using ListEvent
    by (simp add: persisted_commit split: prod.splits)
qed simp_all

lemma set_ids_commit_mono:
  "(\<And>i. c \<noteq> Some (DeleteTask i)) \<Longrightarrow>
   set (task_ids (app_tasks s)) \<subseteq> set (task_ids (app_tasks (commit s u c)))"
  using set_task_ids_dispatch [of "app_tasks s" u "the c"]
  by (cases c) (auto split: store_call.splits)

lemma editing_present_list_step:
  assumes "list_enabled (app_tasks s) (editing s) le" and "editing_present s"
  shows "editing_present (app_step s (ListEvent le))"
proof (cases le)
  case (ClickEdit i)
  then show ?thesis using assms by (simp add: editing_present_def handleEdit_def)
next
  case (ClickDelete i)
  then show ?thesis using assms
    by (auto simp: editing_present_def deleteTask_def row_editing_def split: option.splits)
next
  case ClickSave
  from handleSaveEdit_cases [of "editing s"] show ?thesis
  proof
    assume "handleSaveEdit (editing s) = (editing s, None)"
    then show ?thesis using assms ClickSave by (simp add: editing_present_def split: option.splits)
  next
    assume "\<exists>et. editing s = Some et \<and> handleSaveEdit (editing s) =
      (None, Some (UpdateTask (edit_id et) (edit_text et) (edit_priority et)))"
    then show ?thesis using ClickSave by (auto simp: editing_present_def)
  qed
next
  case (EditText v)
  then show ?thesis using assms
    by (auto simp: editing_present_def setEditText_def split: option.splits)
next
  case (EditPriority p)
  then show ?thesis using assms
    by (auto simp: editing_present_def setEditPriority_def split: option.splits)
qed (use assms in \<open>simp_all add: editing_present_def handleCancelEdit_def split: option.splits\<close>)

lemma editing_present_step:
  assumes "app_enabled s ev" and "editing_present s"
  shows "editing_present (app_step s ev)"
proof (cases ev)
  case (Submit u)
  show ?thesis
  proof (cases "blank (input_task (form s))")
    case True
    then show ?thesis using assms Submit
      by (simp add: editing_present_def handleSubmit_def split: option.splits)
  next
    case False
    then show ?thesis using assms Submit
      by (auto simp: editing_present_def handleSubmit_def addTask_def split: option.splits)
  qed
next
  case (ListEvent le)
  then show ?thesis using assms editing_present_list_step by simp
qed (use assms in \<open>simp_all add: editing_present_def split: option.splits\<close>)

lemma app_inv_step: "app_enabled s ev \<Longrightarrow> app_inv s \<Longrightarrow> app_inv (app_step s ev)"
  by (simp add: app_inv_def persisted_step editing_present_step)

lemma app_inv_mount: "app_mount st = Inr s \<Longrightarrow> app_inv s"
  by (auto simp: app_mount_def app_inv_def persisted_def editing_present_def save_tasks_def
      split: sum.splits)

lemma reachable_app_inv: "reachable s \<Longrightarrow> app_inv s"
proof (induction rule: reachable.induct)
  case (mount st s)
  then show ?case by (rule app_inv_mount)
next
  case (step s ev)
  then show ?case by (blast intro: app_inv_step)
qed

lemma store_wf_step:
  assumes "store_wf (app_tasks s)" and "uuid_fresh s ev"
  shows "store_wf (app_tasks (app_step s ev))"
proof (cases ev)
  case (Submit u)
  then show ?thesis using assms
    by (auto simp: handleSubmit_def store_wf_addTask)
next
  case (ListEvent le)
  then show ?thesis using assms
    by (cases le) (auto simp: handleSaveEdit_def store_wf_deleteTask split: option.splits)
qed (use assms in simp_all)

lemma valid_run_app_inv: "valid_run s evs \<Longrightarrow> app_inv s \<Longrightarrow> app_inv (app_run s evs)"
  by (induction s evs rule: valid_run.induct) (auto intro: app_inv_step)

lemma valid_run_reachable: "reachable s \<Longrightarrow> valid_run s evs \<Longrightarrow> reachable (app_run s evs)"
  by (induction s evs rule: valid_run.induct) (auto intro: reachable.step)

lemma updateTask_same_fields:
  assumes "store_wf tasks" and "i < length tasks"
  shows "updateTask tasks (task_id (tasks ! i)) (task_text (tasks ! i)) (priority (tasks ! i)) = tasks"
proof -
  have inj: "inj_on task_id (set tasks)"
    using assms(1) by (simp add: store_wf_def distinct_map)
  have same: "\<And>t. t \<in> set tasks \<Longrightarrow> task_id t = task_id (tasks ! i) \<Longrightarrow> t = tasks ! i"
    using inj assms(2) by (auto dest: inj_onD)
  show ?thesis
    unfolding updateTask_def
  proof (intro map_idI)
    fix t assume t: "t \<in> set tasks"
    show "(if task_id t = task_id (tasks ! i)
           then t\<lparr>task_text := task_text (tasks ! i), priority := priority (tasks ! i)\<rparr> else t) = t"
    proof (cases "task_id t = task_id (tasks ! i)")
      case True
      then have "t = tasks ! i" using same t by blast
      then show ?thesis by simp
    qed simp
  qed
qed

subsection \<open>Properties of the composed application\<close>

text \<open>
  C6. In every reachable state the stored text decodes to the current task list:
  reloading the page after any sequence of interactions restores it exactly.
\<close>

theorem reachable_reload_restores:
  assumes "reachable s"
  shows "load_tasks (storage s) = Inr (app_tasks s)"
proof -
  have "persisted s" using reachable_app_inv [OF assms] by (simp add: app_inv_def)
  then show ?thesis by (simp add: persisted_def load_tasks_stored)
qed

theorem reachable_reload_restores_witness:
  "reachable \<lparr>app_tasks = [], storage = save_tasks Map.empty [], form = taskInput_init, editing = None\<rparr>
   \<and> load_tasks (storage \<lparr>app_tasks = [], storage = save_tasks Map.empty [], form = taskInput_init, editing = None\<rparr>) = Inr []"
proof -
  have m: "app_mount Map.empty = Inr \<lparr>app_tasks = [], storage = save_tasks Map.empty [], form = taskInput_init, editing = None\<rparr>"
    by (simp add: app_mount_def load_tasks_def)
  have r: "reachable \<lparr>app_tasks = [], storage = save_tasks Map.empty [], form = taskInput_init, editing = None\<rparr>"
    using m by (rule reachable.mount)
  show ?thesis using r reachable_reload_restores [OF r] by simp
qed

text \<open>
  C7. In every reachable state, a row in edit mode belongs to a task of the list:
  the edit controls are rendered, and saving always updates an existing task.
\<close>

theorem reachable_editing_present:
  assumes "reachable s" and "editing s = Some et"
  shows "edit_id et \<in> set (task_ids (app_tasks s))"
  using reachable_app_inv [OF assms(1)] assms(2) by (simp add: app_inv_def editing_present_def)

theorem reachable_editing_present_witness:
  "reachable (app_run \<lparr>app_tasks = [], storage = save_tasks Map.empty [], form = taskInput_init, editing = None\<rparr>
       [TypeTask (js ''a''), Submit (js ''u1''), ListEvent (ClickEdit 0)])
   \<and> editing (app_run \<lparr>app_tasks = [], storage = save_tasks Map.empty [], form = taskInput_init, editing = None\<rparr>
       [TypeTask (js ''a''), Submit (js ''u1''), ListEvent (ClickEdit 0)])
     = Some \<lparr>edit_id = js ''u1'', edit_text = js ''a'', edit_priority = Medium\<rparr>
   \<and> js ''u1'' \<in> set (task_ids (app_tasks (app_run \<lparr>app_tasks = [], storage = save_tasks Map.empty [],
       form = taskInput_init, editing = None\<rparr> [TypeTask (js ''a''), Submit (js ''u1''), ListEvent (ClickEdit 0)])))"
proof -
  have m: "app_mount Map.empty = Inr \<lparr>app_tasks = [], storage = save_tasks Map.empty [], form = taskInput_init, editing = None\<rparr>"
    by (simp add: app_mount_def load_tasks_def)
  have v: "valid_run \<lparr>app_tasks = [], storage = save_tasks Map.empty [], form = taskInput_init, editing = None\<rparr>
       [TypeTask (js ''a''), Submit (js ''u1''), ListEvent (ClickEdit 0)]"
    by (simp add: commit_def handleSubmit_def setTask_input_def taskInput_init_def addTask_def
        js_whitespace_def Let_def)
  have r: "reachable (app_run \<lparr>app_tasks = [], storage = save_tasks Map.empty [], form = taskInput_init, editing = None\<rparr>
       [TypeTask (js ''a''), Submit (js ''u1''), ListEvent (ClickEdit 0)])"
    using reachable.mount [OF m] v by (rule valid_run_reachable)
  have e: "editing (app_run \<lparr>app_tasks = [], storage = save_tasks Map.empty [], form = taskInput_init, editing = None\<rparr>
       [TypeTask (js ''a''), Submit (js ''u1''), ListEvent (ClickEdit 0)])
     = Some \<lparr>edit_id = js ''u1'', edit_text = js ''a'', edit_priority = Medium\<rparr>"
    by (simp add: commit_def handleSubmit_def setTask_input_def taskInput_init_def addTask_def
        handleEdit_def js_whitespace_def Let_def)
  show ?thesis using r e reachable_editing_present [OF r e] by simp
qed

text \<open>
  C8. If the loaded list has distinct identifiers and every UUID the add handler
  receives is fresh, every state of the run has distinct identifiers.
\<close>

theorem valid_run_ids_distinct:
  assumes "valid_run s evs" and "store_wf (app_tasks s)"
  shows "store_wf (app_tasks (app_run s evs))"
  using assms by (induction s evs rule: valid_run.induct) (auto intro: store_wf_step)

theorem valid_run_ids_distinct_witness:
  "valid_run \<lparr>app_tasks = [], storage = Map.empty, form = taskInput_init, editing = None\<rparr>
     [TypeTask (js ''a''), Submit (js ''u1''), TypeTask (js ''b''), Submit (js ''u2'')]
   \<and> store_wf (app_tasks \<lparr>app_tasks = [], storage = Map.empty, form = taskInput_init, editing = None\<rparr>)
   \<and> store_wf (app_tasks (app_run \<lparr>app_tasks = [], storage = Map.empty, form = taskInput_init, editing = None\<rparr>
       [TypeTask (js ''a''), Submit (js ''u1''), TypeTask (js ''b''), Submit (js ''u2'')]))"
proof -
  have v: "valid_run \<lparr>app_tasks = [], storage = Map.empty, form = taskInput_init, editing = None\<rparr>
     [TypeTask (js ''a''), Submit (js ''u1''), TypeTask (js ''b''), Submit (js ''u2'')]"
    by (simp add: commit_def handleSubmit_def setTask_input_def taskInput_init_def addTask_def
        js_whitespace_def Let_def)
  have w: "store_wf (app_tasks \<lparr>app_tasks = [], storage = Map.empty, form = taskInput_init, editing = None\<rparr>)"
    by (simp add: store_wf_def)
  show ?thesis using v w valid_run_ids_distinct [OF v w] by blast
qed

text \<open>
  C11. Submitting the form with empty or white-space text through the page changes
  nothing: not the list, not the stored text, not the form.
\<close>

theorem submit_blank_noop:
  assumes "blank (input_task (form s))"
  shows "app_step s (Submit u) = s"
  using assms by (simp add: handleSubmit_def commit_def)

theorem submit_blank_noop_witness:
  "blank (input_task (form \<lparr>app_tasks = [], storage = Map.empty, form = taskInput_init, editing = None\<rparr>))
   \<and> app_step \<lparr>app_tasks = [], storage = Map.empty, form = taskInput_init, editing = None\<rparr> (Submit (js ''u''))
     = \<lparr>app_tasks = [], storage = Map.empty, form = taskInput_init, editing = None\<rparr>"
proof -
  have b: "blank (input_task (form \<lparr>app_tasks = [], storage = Map.empty, form = taskInput_init, editing = None\<rparr>))"
    by (simp add: taskInput_init_def)
  show ?thesis using b submit_blank_noop [OF b] by blast
qed

text \<open>
  C15. With distinct identifiers, opening a row for editing and saving it at once
  (non-blank text) is a run the page offers, closes the editor and leaves the list
  unchanged.
\<close>

theorem edit_then_save_unchanged:
  assumes "store_wf (app_tasks s)" and "app_enabled s (ListEvent (ClickEdit i))"
    and "\<not> blank (task_text (app_tasks s ! i))"
  shows "valid_run s [ListEvent (ClickEdit i), ListEvent ClickSave]
    \<and> app_tasks (app_run s [ListEvent (ClickEdit i), ListEvent ClickSave]) = app_tasks s
    \<and> editing (app_run s [ListEvent (ClickEdit i), ListEvent ClickSave]) = None"
proof -
  have i: "i < length (app_tasks s)" using assms(2) by simp
  have en: "list_ex (row_editing (handleEdit (app_tasks s ! i))) (app_tasks s)"
    using i by (auto simp: handleEdit_def list_ex_iff)
  show ?thesis
    using assms i en updateTask_same_fields [OF assms(1) i]
    by (simp add: handleEdit_def handleSaveEdit_def commit_def Let_def)
qed

theorem edit_then_save_unchanged_witness:
  "store_wf (app_tasks \<lparr>app_tasks = [\<lparr>task_id = js ''a'', task_text = js ''x'', completed = False, priority = Low\<rparr>],
      storage = Map.empty, form = taskInput_init, editing = None\<rparr>)
   \<and> app_enabled \<lparr>app_tasks = [\<lparr>task_id = js ''a'', task_text = js ''x'', completed = False, priority = Low\<rparr>],
      storage = Map.empty, form = taskInput_init, editing = None\<rparr> (ListEvent (ClickEdit 0))
   \<and> \<not> blank (task_text (app_tasks \<lparr>app_tasks = [\<lparr>task_id = js ''a'', task_text = js ''x'', completed = False, priority = Low\<rparr>],
      storage = Map.empty, form = taskInput_init, editing = None\<rparr> ! 0))
   \<and> editing (app_run \<lparr>app_tasks = [\<lparr>task_id = js ''a'', task_text = js ''x'', completed = False, priority = Low\<rparr>],
      storage = Map.empty, form = taskInput_init, editing = None\<rparr> [ListEvent (ClickEdit 0), ListEvent ClickSave]) = None"
proof -
  have a: "store_wf (app_tasks \<lparr>app_tasks = [\<lparr>task_id = js ''a'', task_text = js ''x'', completed = False, priority = Low\<rparr>],
      storage = Map.empty, form = taskInput_init, editing = None\<rparr>)"
    by (simp add: store_wf_def)
  have b: "app_enabled \<lparr>app_tasks = [\<lparr>task_id = js ''a'', task_text = js ''x'', completed = False, priority = Low\<rparr>],
      storage = Map.empty, form = taskInput_init, editing = None\<rparr> (ListEvent (ClickEdit 0))"
    by simp
  have c: "\<not> blank (task_text (app_tasks \<lparr>app_tasks = [\<lparr>task_id = js ''a'', task_text = js ''x'', completed = False, priority = Low\<rparr>],
      storage = Map.empty, form = taskInput_init, editing = None\<rparr> ! 0))"
    by (simp add: js_whitespace_def)
  show ?thesis using a b c edit_then_save_unchanged [OF a b c] by blast
qed

text \<open>
  C16. Opening a row for editing while another row is being edited discards the
  pending edit without a warning: the list and the stored text are unchanged, and the
  editor now holds the newly opened task's stored text and priority.
\<close>

theorem edit_abandons_pending:
  assumes "editing s = Some et" and "app_enabled s (ListEvent (ClickEdit j))"
  shows "app_step s (ListEvent (ClickEdit j)) =
           s\<lparr>editing := Some \<lparr>edit_id = task_id (app_tasks s ! j), edit_text = task_text (app_tasks s ! j),
                                 edit_priority = priority (app_tasks s ! j)\<rparr>\<rparr>
         \<and> edit_id et \<noteq> task_id (app_tasks s ! j)"
  using assms by (simp add: handleEdit_def commit_def)

theorem edit_abandons_pending_witness:
  "editing \<lparr>app_tasks = [\<lparr>task_id = js ''a'', task_text = js ''x'', completed = False, priority = Low\<rparr>,
                        \<lparr>task_id = js ''b'', task_text = js ''y'', completed = False, priority = High\<rparr>],
            storage = Map.empty, form = taskInput_init,
            editing = Some \<lparr>edit_id = js ''a'', edit_text = js ''pending'', edit_priority = Low\<rparr>\<rparr>
     = Some \<lparr>edit_id = js ''a'', edit_text = js ''pending'', edit_priority = Low\<rparr>
   \<and> app_enabled \<lparr>app_tasks = [\<lparr>task_id = js ''a'', task_text = js ''x'', completed = False, priority = Low\<rparr>,
                        \<lparr>task_id = js ''b'', task_text = js ''y'', completed = False, priority = High\<rparr>],
            storage = Map.empty, form = taskInput_init,
            editing = Some \<lparr>edit_id = js ''a'', edit_text = js ''pending'', edit_priority = Low\<rparr>\<rparr>
       (ListEvent (ClickEdit 1))
   \<and> editing (app_step \<lparr>app_tasks = [\<lparr>task_id = js ''a'', task_text = js ''x'', completed = False, priority = Low\<rparr>,
                        \<lparr>task_id = js ''b'', task_text = js ''y'', completed = False, priority = High\<rparr>],
            storage = Map.empty, form = taskInput_init,
            editing = Some \<lparr>edit_id = js ''a'', edit_text = js ''pending'', edit_priority = Low\<rparr>\<rparr>
       (ListEvent (ClickEdit 1))) = Some \<lparr>edit_id = js ''b'', edit_text = js ''y'', edit_priority = High\<rparr>"
proof -
  let ?s = "\<lparr>app_tasks = [\<lparr>task_id = js ''a'', task_text = js ''x'', completed = False, priority = Low\<rparr>,
                        \<lparr>task_id = js ''b'', task_text = js ''y'', completed = False, priority = High\<rparr>],
            storage = Map.empty, form = taskInput_init,
            editing = Some \<lparr>edit_id = js ''a'', edit_text = js ''pending'', edit_priority = Low\<rparr>\<rparr>"
  have e: "editing ?s = Some \<lparr>edit_id = js ''a'', edit_text = js ''pending'', edit_priority = Low\<rparr>" by simp
  have en: "app_enabled ?s (ListEvent (ClickEdit 1))" by simp
  show ?thesis using e en edit_abandons_pending [OF e en] by simp
qed

end
