(* ===== verification/Spec2Isabelle.thy ===== *)
theory Spec2Isabelle
  imports App
begin

text \<open>
  \<^bold>\<open>A verified model of the ToDoList-react task manager.\<close>

  The program (\<^verbatim>\<open>src/src\<close>) is a single-page React application. \<^verbatim>\<open>App\<close>
  (\<^verbatim>\<open>App.tsx\<close>) holds the task array, loads it from \<^verbatim>\<open>localStorage\<close> when
  it mounts and writes it back after every change. It passes one callback per store
  operation to its two children. \<^verbatim>\<open>TaskInput\<close> (\<^verbatim>\<open>components/TaskInput.tsx\<close>)
  is the form that adds tasks. \<^verbatim>\<open>TaskList\<close> (\<^verbatim>\<open>components/TaskList.tsx\<close>)
  renders the rows and their per-row edit mode. \<^verbatim>\<open>types.ts\<close> holds the data
  types. The components interact only through these callbacks; there is no
  concurrency, and every change is the reaction to one user event.

  \<^bold>\<open>Theories and what they model.\<close>
  \<^item> \<open>Prelude\<close>: JavaScript strings as lists of UTF-16 code units (\<open>jstr\<close>, a
    \<open>16 word list\<close>), the \<open>handler_simps\<close> collection, and lemmas on lists of
    records seen as maps from a key field, shared by the refinement proofs.
  \<^item> \<open>Types\<close>: \<^verbatim>\<open>Task\<close> and \<^verbatim>\<open>EditingTask\<close> as records, the priority union as
    a datatype.
  \<^item> \<open>TaskStore\<close>: the four handlers of \<^verbatim>\<open>App\<close> (\<open>addTask\<close>, \<open>toggleTask\<close>,
    \<open>deleteTask\<close>, \<open>updateTask\<close>) as functions from the current array to the array
    passed to \<^verbatim>\<open>setTasks\<close>, the counters, and the callback interface
    \<open>store_call\<close>/\<open>dispatch\<close> the children use. The invariant \<open>store_wf\<close> says that
    identifiers are distinct. The abstract view \<open>store_map\<close> maps identifiers to
    tasks, and each handler refines a map operation.
  \<^item> \<open>JsString\<close>: \<^verbatim>\<open>String.prototype.trim\<close> from ECMAScript's white-space set.
  \<^item> \<open>TaskInput\<close>: the form state and \<open>handleSubmit\<close>, which returns the callback
    call it makes.
  \<^item> \<open>TaskList\<close>: the \<^verbatim>\<open>editingTask\<close> option and the edit, save and cancel
    handlers. \<open>list_enabled\<close> says which controls a rendered row offers, and
    \<open>taskList_step\<close> runs the handler of each control.
  \<^item> \<open>Json\<close>: \<^verbatim>\<open>JSON.stringify\<close> and \<^verbatim>\<open>JSON.parse\<close>, modelled from the
    ECMAScript specification because they are built-ins, not code of the repository.
    The parser is a recursive-descent parser with fuel. It gets \<open>2 * length s + 1\<close>
    units, which \<open>parse_fuel_enough\<close> proves is always enough: every nested call
    consumes at least one code unit, and each unit pays for one call of the value
    parser and one of the list parsers.
  \<^item> \<open>Storage\<close>: \<^verbatim>\<open>localStorage\<close> as a map, the task encoding, and
    \<open>load_tasks\<close>/\<open>save_tasks\<close>, the state initialiser and the persisting
    effect. Every way the initialiser or the first render throws is an error value.
  \<^item> \<open>App\<close>: the composed state (\<open>app_state\<close>) and one step per user event
    (\<open>app_step\<close>). A step runs the child's handler, then the store call and the
    persisting effect (\<open>commit\<close>). \<open>app_mount\<close> is the mount, \<open>reachable\<close> the
    states of a mount followed by enabled events, and \<open>valid_run\<close>/\<open>app_run\<close>
    explicit event sequences. \<^verbatim>\<open>crypto.randomUUID()\<close> is the environment: its
    result is part of the \<open>Submit\<close> event, and \<open>uuid_fresh\<close> assumes it is new.

  \<^bold>\<open>What is proved.\<close>
  \<^item> Store: the functional behaviour of each handler, position by position (C1--C4).
    A toggle, update or delete of an absent identifier is a silent no-op (C17). Each
    handler refines its abstract map operation (C21--C24). Distinct identifiers are
    preserved (C1, C8). Toggling moves a task between the two counters (C25).
  \<^item> Persistence: the round trip \<open>load_tasks (save_tasks st ts) = Inr ts\<close> for
    any content (C5). It rests on the general JSON round trip for values without
    numbers (\<open>parse_stringify_no_num\<close>). In every reachable state the stored text
    decodes to the current list (C6).
  \<^item> Errors: blank input and blank edits change nothing (C9, C11, C12). Stored
    text that is not JSON, or JSON that is not an array or has a \<^verbatim>\<open>null\<close>
    element, makes the program fail instead of starting empty (C18, C19). A missing or
    empty key starts empty (C20).
  \<^item> Editing: a row in edit mode always belongs to an existing task (C7). With
    distinct identifiers at most one row edits (C14). Opening an edit and saving it
    at once is a no-op (C15). Opening another row discards a pending edit (C16).

  \<^bold>\<open>Not modelled.\<close> Styling, icons, layout and the \<^verbatim>\<open>ThemeToggle\<close> component
  (imported but not among the sources) carry no state. React's scheduling is not
  modelled; each event is one step. Number values in JSON are kept as lexemes, since
  the program stores none. A stored array whose elements are not Task objects does
  not make the program throw, but the model stops there (\<open>UntypedTasks\<close>). A
  loaded object's extra keys and key order are not kept: the model decodes the
  four fields. Storage write failures (quota exceeded) are not modelled.
\<close>

end
